theory Spec2Isabelle
  imports Main
begin

section \<open>Strings\<close>

text \<open>
  A \<^typ>\<open>string\<close> stands for a JavaScript string whose code units are all below 256
  (the sentinel comments and the Move sources they live in are ASCII).
\<close>

text \<open>\<^verbatim>\<open>String.prototype.startsWith\<close>, used to spell out \<^verbatim>\<open>includes\<close>.\<close>

fun starts_with :: "string \<Rightarrow> string \<Rightarrow> bool" where
  "starts_with s [] = True"
| "starts_with [] (p # ps) = False"
| "starts_with (c # cs) (p # ps) = (c = p \<and> starts_with cs ps)"

text \<open>\<^verbatim>\<open>String.prototype.includes\<close>: the pattern occurs at some offset.\<close>

fun str_includes :: "string \<Rightarrow> string \<Rightarrow> bool" where
  "str_includes [] sub = (sub = [])"
| "str_includes (c # cs) sub = (starts_with (c # cs) sub \<or> str_includes cs sub)"

text \<open>
  \<^verbatim>\<open>code.split("\n")\<close>: the pieces between the newlines; never the empty array
  (the empty string gives one empty piece).
\<close>

fun split_lines :: "string \<Rightarrow> string \<Rightarrow> string list" where
  "split_lines cur [] = [cur]"
| "split_lines cur (c # cs) =
     (if c = CHR 0x0A then cur # split_lines [] cs else split_lines (cur @ [c]) cs)"

definition split_newline :: "string \<Rightarrow> string list" where
  "split_newline code = split_lines [] code"

text \<open>The regular expression class \<^verbatim>\<open>\s\<close> and the characters \<^verbatim>\<open>.\<close> refuses.\<close>

definition is_space :: "char \<Rightarrow> bool" where
  "is_space c \<longleftrightarrow>
     c = CHR 0x09 \<or> c = CHR 0x0A \<or> c = CHR 0x0B \<or> c = CHR 0x0C \<or> c = CHR 0x0D \<or>
     c = CHR 0x20 \<or> c = CHR 0xA0"

definition is_line_terminator :: "char \<Rightarrow> bool" where
  "is_line_terminator c \<longleftrightarrow> c = CHR 0x0A \<or> c = CHR 0x0D"

text \<open>\<^verbatim>\<open>String.prototype.trim\<close>.\<close>

definition trim :: "string \<Rightarrow> string" where
  "trim s = rev (dropWhile is_space (rev (dropWhile is_space s)))"

section \<open>The begin-sentinel pattern\<close>

definition begin_marker :: string where
  "begin_marker = ''// @editable-begin''"

definition end_marker :: string where
  "end_marker = ''// @editable-end''"

text \<open>
  \<^verbatim>\<open>line.match(/\/\/ @editable-begin\s*([^-]+)-\s*(.+)/)\<close>, as the backtracking matcher
  runs it. Each \<^verbatim>\<open>\s*\<close> is greedy: it first takes every space and gives them back one
  at a time (the counter \<open>k\<close>). \<^verbatim>\<open>(.+)\<close> takes the longest run of characters that are
  not line terminators; \<^verbatim>\<open>([^-]+)\<close> takes the longest run without a dash, and no shorter
  run can succeed since the character after it would not be a dash.
\<close>

definition dot_plus :: "string \<Rightarrow> string" where
  "dot_plus s = takeWhile (\<lambda>c. \<not> is_line_terminator c) s"

fun match_description :: "nat \<Rightarrow> string \<Rightarrow> string option" where
  "match_description 0 s = (if dot_plus s \<noteq> [] then Some (dot_plus s) else None)"
| "match_description (Suc k) s =
     (if dot_plus (drop (Suc k) s) \<noteq> [] then Some (dot_plus (drop (Suc k) s))
      else match_description k s)"

definition match_after_title :: "string \<Rightarrow> string \<Rightarrow> (string \<times> string) option" where
  "match_after_title t r =
     (if t \<noteq> [] \<and> starts_with r ''-''
      then (case match_description (length (takeWhile is_space (tl r))) (tl r) of
              Some d \<Rightarrow> Some (t, d)
            | None \<Rightarrow> None)
      else None)"

definition no_dash :: "string \<Rightarrow> string" where
  "no_dash s = takeWhile (\<lambda>c. c \<noteq> CHR ''-'') s"

fun match_title :: "nat \<Rightarrow> string \<Rightarrow> (string \<times> string) option" where
  "match_title 0 s = match_after_title (no_dash s) (drop (length (no_dash s)) s)"
| "match_title (Suc k) s =
     (case match_after_title (no_dash (drop (Suc k) s))
             (drop (length (no_dash (drop (Suc k) s))) (drop (Suc k) s)) of
        Some m \<Rightarrow> Some m
      | None \<Rightarrow> match_title k s)"

text \<open>The pattern is not anchored: the leftmost offset at which it matches wins.\<close>

fun match_begin :: "string \<Rightarrow> (string \<times> string) option" where
  "match_begin [] = None"
| "match_begin (c # cs) =
     (case (if starts_with (c # cs) begin_marker
            then match_title (length (takeWhile is_space (drop (length begin_marker) (c # cs))))
                   (drop (length begin_marker) (c # cs))
            else None) of
        Some m \<Rightarrow> Some m
      | None \<Rightarrow> match_begin cs)"

section \<open>Editable regions of the code playground\<close>

text \<open>\<^verbatim>\<open>interface EditableRegion\<close> of \<^verbatim>\<open>CodePlaygroundView.tsx\<close>; \<open>end\<close> is spelled \<open>endLine\<close>.\<close>

record EditableRegion =
  start :: int
  endLine :: int
  description :: string
  title :: string

text \<open>The variables of the parsing effect: the array being built and the open accumulator.\<close>

record parse_state =
  regions :: "EditableRegion list"
  currentStart :: "int option"
  currentTitle :: string
  currentDescription :: string

text \<open>The callback of \<^verbatim>\<open>lines.forEach((line, index) => ...)\<close>.\<close>

definition parse_line :: "parse_state \<Rightarrow> string \<Rightarrow> nat \<Rightarrow> parse_state" where
  "parse_line st line index =
     (if str_includes line begin_marker then
        (case match_begin line of
           Some (t, d) \<Rightarrow>
             st\<lparr>currentStart := Some (int index + 1),
                currentTitle := trim t, currentDescription := trim d\<rparr>
         | None \<Rightarrow>
             st\<lparr>currentStart := Some (int index + 1),
                currentTitle := ''Editable Section'',
                currentDescription := ''This section can be modified''\<rparr>)
      else if str_includes line end_marker \<and> currentStart st \<noteq> None then
        (case currentStart st of
           Some s \<Rightarrow>
             st\<lparr>regions := regions st @
                   [\<lparr>start = s, endLine = int index,
                     description = currentDescription st, title = currentTitle st\<rparr>],
                currentStart := None, currentTitle := [], currentDescription := []\<rparr>
         | None \<Rightarrow> st)
      else st)"

text \<open>\<^verbatim>\<open>Array.prototype.forEach\<close> with the index, threading the variables the callback assigns.\<close>

fun forEach :: "('s \<Rightarrow> 'a \<Rightarrow> nat \<Rightarrow> 's) \<Rightarrow> 'a list \<Rightarrow> nat \<Rightarrow> 's \<Rightarrow> 's" where
  "forEach f [] i st = st"
| "forEach f (x # xs) i st = forEach f xs (Suc i) (f st x i)"

definition initial_state :: parse_state where
  "initial_state =
     \<lparr>regions = [], currentStart = None, currentTitle = [], currentDescription = []\<rparr>"

definition parse :: "string \<Rightarrow> EditableRegion list" where
  "parse code = regions (forEach parse_line (split_newline code) 0 initial_state)"

section \<open>The region parsers of the editing view and of the workshop service\<close>

text \<open>
  \<^verbatim>\<open>CodeEditingView.tsx\<close> runs the same scan and keeps only the two line numbers of
  each region.
\<close>

record LineRegion =
  lr_start :: int
  lr_end :: int

definition editing_parse_line ::
  "LineRegion list \<times> int option \<Rightarrow> string \<Rightarrow> nat \<Rightarrow> LineRegion list \<times> int option" where
  "editing_parse_line st line index =
     (if str_includes line begin_marker then (fst st, Some (int index + 1))
      else if str_includes line end_marker \<and> snd st \<noteq> None then
        (case snd st of
           Some s \<Rightarrow> (fst st @ [\<lparr>lr_start = s, lr_end = int index\<rparr>], None)
         | None \<Rightarrow> st)
      else st)"

definition editing_parse :: "string \<Rightarrow> LineRegion list" where
  "editing_parse code = fst (forEach editing_parse_line (split_newline code) 0 ([], None))"

text \<open>
  \<^verbatim>\<open>getEditableRegions\<close> of \<^verbatim>\<open>workshopService.ts\<close>, after the file has been read: the
  sibling scan, over \<^verbatim>\<open>@editable-begin:\<close> markers, with \<^verbatim>\<open>lineNumber = index + 1\<close>.
  \<^verbatim>\<open>line.split(marker)[1]\<close> is the text between the first marker and the next one.
\<close>

fun after_marker :: "string \<Rightarrow> string \<Rightarrow> string" where
  "after_marker sep [] = []"
| "after_marker sep (c # cs) =
     (if starts_with (c # cs) sep then drop (length sep) (c # cs) else after_marker sep cs)"

fun before_marker :: "string \<Rightarrow> string \<Rightarrow> string" where
  "before_marker sep [] = []"
| "before_marker sep (c # cs) =
     (if starts_with (c # cs) sep then [] else c # before_marker sep cs)"

record ServiceRegion =
  startLine :: int
  sv_endLine :: int
  sv_description :: string

definition service_parse_line ::
  "ServiceRegion list \<times> (int \<times> string) option \<Rightarrow> string \<Rightarrow> nat
     \<Rightarrow> ServiceRegion list \<times> (int \<times> string) option" where
  "service_parse_line st line index =
     (let lineNumber = int index + 1 in
      if str_includes line ''@editable-begin:'' then
        (fst st,
         Some (lineNumber + 1,
               trim (before_marker ''@editable-begin:'' (after_marker ''@editable-begin:'' line))))
      else if str_includes line ''@editable-end'' \<and> snd st \<noteq> None then
        (case snd st of
           Some (s, d) \<Rightarrow>
             (fst st @ [\<lparr>startLine = s, sv_endLine = lineNumber - 1, sv_description = d\<rparr>], None)
         | None \<Rightarrow> st)
      else st)"

definition getEditableRegions :: "string \<Rightarrow> ServiceRegion list" where
  "getEditableRegions code = fst (forEach service_parse_line (split_newline code) 0 ([], None))"

section \<open>Clamping the regions to the document\<close>

text \<open>
  \<^verbatim>\<open>validatedRegions\<close>: every line number is clamped into \<open>[1, totalLines]\<close>, then the
  regions whose start lies after their end are filtered out.
\<close>

definition clamp_region :: "int \<Rightarrow> EditableRegion \<Rightarrow> EditableRegion" where
  "clamp_region totalLines region =
     region\<lparr>start := min (max 1 (start region)) totalLines,
            endLine := min (max 1 (endLine region)) totalLines\<rparr>"

definition validatedRegions :: "int \<Rightarrow> EditableRegion list \<Rightarrow> EditableRegion list" where
  "validatedRegions totalLines editableRegions =
     filter (\<lambda>region. start region \<le> endLine region)
       (map (clamp_region totalLines) editableRegions)"

section \<open>The edit guard\<close>

text \<open>
  What the guard reads of the editor widget: positions, ranges, selections (a selection
  is a range with the two ends in the order the user made them) and keyboard events.
\<close>

record Position =
  lineNumber :: int
  column :: int

record Range =
  startLineNumber :: int
  startColumn :: int
  endLineNumber :: int
  endColumn :: int

record Selection = Range +
  selectionStartLineNumber :: int
  selectionStartColumn :: int
  positionLineNumber :: int
  positionColumn :: int

definition isEmpty :: "Selection \<Rightarrow> bool" where
  "isEmpty sel \<longleftrightarrow>
     startLineNumber sel = endLineNumber sel \<and> startColumn sel = endColumn sel"

definition getPosition :: "Selection \<Rightarrow> Position" where
  "getPosition sel = \<lparr>lineNumber = positionLineNumber sel, column = positionColumn sel\<rparr>"

record KeyboardEvent =
  keyCode :: int
  ctrlKey :: bool
  shiftKey :: bool
  altKey :: bool
  metaKey :: bool

text \<open>The members of the widget's \<^verbatim>\<open>KeyCode\<close> enumeration that the guard and the claims name.\<close>

definition KeyCode_Backspace :: int where "KeyCode_Backspace = 1"
definition KeyCode_Tab :: int where "KeyCode_Tab = 2"
definition KeyCode_Enter :: int where "KeyCode_Enter = 3"
definition KeyCode_Shift :: int where "KeyCode_Shift = 4"
definition KeyCode_Ctrl :: int where "KeyCode_Ctrl = 5"
definition KeyCode_Alt :: int where "KeyCode_Alt = 6"
definition KeyCode_Space :: int where "KeyCode_Space = 10"
definition KeyCode_LeftArrow :: int where "KeyCode_LeftArrow = 15"
definition KeyCode_UpArrow :: int where "KeyCode_UpArrow = 16"
definition KeyCode_RightArrow :: int where "KeyCode_RightArrow = 17"
definition KeyCode_DownArrow :: int where "KeyCode_DownArrow = 18"
definition KeyCode_Delete :: int where "KeyCode_Delete = 20"
definition KeyCode_Digit0 :: int where "KeyCode_Digit0 = 21"
definition KeyCode_KeyV :: int where "KeyCode_KeyV = 52"
definition KeyCode_KeyZ :: int where "KeyCode_KeyZ = 56"
definition KeyCode_Meta :: int where "KeyCode_Meta = 57"

text \<open>\<^verbatim>\<open>isPositionEditable\<close>: some region holds the position's line.\<close>

definition isPositionEditable :: "EditableRegion list \<Rightarrow> Position \<Rightarrow> bool" where
  "isPositionEditable validated position =
     list_ex (\<lambda>region. lineNumber position \<ge> start region \<and> lineNumber position \<le> endLine region)
       validated"

text \<open>The test the key handler makes of one non-empty selection.\<close>

definition isRangeEditable :: "EditableRegion list \<Rightarrow> int \<Rightarrow> int \<Rightarrow> bool" where
  "isRangeEditable validated startL endL =
     list_ex (\<lambda>region. startL \<ge> start region \<and> endL \<le> endLine region) validated"

text \<open>\<^verbatim>\<open>isEditAllowed\<close>: every selection must pass; a missing selection fails.\<close>

definition isEditAllowed :: "EditableRegion list \<Rightarrow> Selection option list \<Rightarrow> bool" where
  "isEditAllowed validated selections =
     list_all (\<lambda>selection.
        case selection of
          None \<Rightarrow> False
        | Some sel \<Rightarrow>
            if isEmpty sel then isPositionEditable validated (getPosition sel)
            else isRangeEditable validated (startLineNumber sel) (endLineNumber sel))
       selections"

definition isEditingKey :: "KeyboardEvent \<Rightarrow> bool" where
  "isEditingKey e \<longleftrightarrow>
     keyCode e = KeyCode_Backspace \<or>
     keyCode e = KeyCode_Delete \<or>
     keyCode e = KeyCode_Enter \<or>
     keyCode e = KeyCode_Tab \<or>
     (ctrlKey e \<and> keyCode e = KeyCode_KeyV) \<or>
     (\<not> ctrlKey e \<and> \<not> altKey e \<and> \<not> metaKey e \<and>
      keyCode e \<ge> KeyCode_Digit0 \<and> keyCode e \<le> KeyCode_KeyZ)"

text \<open>
  The key handler. The result says whether the event was stopped
  (\<^verbatim>\<open>preventDefault\<close> and \<^verbatim>\<open>stopPropagation\<close>); with no selections it returns at once.
\<close>

definition onKeyDown ::
  "EditableRegion list \<Rightarrow> Selection option list option \<Rightarrow> KeyboardEvent \<Rightarrow> bool" where
  "onKeyDown validated selections e =
     (case selections of
        None \<Rightarrow> False
      | Some sels \<Rightarrow>
          if \<not> isEditAllowed validated sels then (if isEditingKey e then True else False)
          else False)"

section \<open>The paste handler\<close>

text \<open>
  Of the editor widget the handler uses the cursor position and the undo command. The
  widget records a paste as one entry of its undo stack; undo restores the latest entry.
\<close>

record editor_state =
  buffer :: string
  cursor :: "Position option"
  undoStack :: "(string \<times> Position option) list"

definition apply_paste :: "string \<Rightarrow> Position option \<Rightarrow> editor_state \<Rightarrow> editor_state" where
  "apply_paste newBuffer newCursor ed =
     \<lparr>buffer = newBuffer, cursor = newCursor,
      undoStack = (buffer ed, cursor ed) # undoStack ed\<rparr>"

definition trigger_undo :: "editor_state \<Rightarrow> editor_state" where
  "trigger_undo ed =
     (case undoStack ed of
        [] \<Rightarrow> ed
      | (b, c) # rest \<Rightarrow> \<lparr>buffer = b, cursor = c, undoStack = rest\<rparr>)"

text \<open>\<^verbatim>\<open>onDidPaste\<close>: runs after the paste; the regions are those of the text before it.\<close>

definition onDidPaste :: "EditableRegion list \<Rightarrow> editor_state \<Rightarrow> editor_state" where
  "onDidPaste validated ed =
     (case cursor ed of
        Some position \<Rightarrow>
          if \<not> isPositionEditable validated position then trigger_undo ed else ed
      | None \<Rightarrow> ed)"

section \<open>Line descriptions\<close>

record ImageData =
  url :: string
  caption :: "string option"
  altText :: "string option"
  width :: "int option"
  height :: "int option"

record LineDescription =
  lines :: "int list"
  content :: string
  imageData :: "ImageData option"

text \<open>
  The lookup both hover paths make:
  \<^verbatim>\<open>lineDescriptions.find((desc) => desc.lines.includes(lineNumber))\<close>.
\<close>

definition findAt :: "int \<Rightarrow> LineDescription list \<Rightarrow> LineDescription option" where
  "findAt lineNo lineDescriptions =
     find (\<lambda>desc. lineNo \<in> set (lines desc)) lineDescriptions"

text \<open>\<^verbatim>\<open>provideHover\<close> of the hover provider: the markdown blocks of the popup, or null.\<close>

definition provideHover :: "LineDescription list \<Rightarrow> Position \<Rightarrow> string list option" where
  "provideHover lineDescriptions position =
     (case findAt (lineNumber position) lineDescriptions of
        Some desc \<Rightarrow>
          Some ([''**Line Description**'', content desc] @
                (case imageData desc of
                   Some img \<Rightarrow>
                     [''!['' @
                      (case altText img of
                         None \<Rightarrow> ''Line illustration''
                       | Some a \<Rightarrow> if a = [] then ''Line illustration'' else a) @
                      '']('' @ url img @ '')'']
                 | None \<Rightarrow> []))
      | None \<Rightarrow> None)"

record DecorationOptions =
  isWholeLine :: bool
  className :: string
  linesDecorationsClassName :: string
  overviewRulerColor :: string
  minimapColor :: string

record Decoration =
  decorationRange :: Range
  options :: DecorationOptions

definition line_decoration :: "int \<Rightarrow> Decoration" where
  "line_decoration n =
     \<lparr>decorationRange =
        \<lparr>startLineNumber = n, startColumn = 1, endLineNumber = n, endColumn = 1\<rparr>,
      options =
        \<lparr>isWholeLine = True, className = ''bg-info bg-opacity-10'',
         linesDecorationsClassName = ''border-l-4 border-info'',
         overviewRulerColor = ''rgb(34, 211, 238)'',
         minimapColor = ''rgb(34, 211, 238)''\<rparr>\<rparr>"

text \<open>\<^verbatim>\<open>createLineDescriptionDecorations\<close>: \<^verbatim>\<open>flatMap\<close> over the descriptions, \<^verbatim>\<open>map\<close> over the lines.\<close>

definition createLineDescriptionDecorations :: "LineDescription list \<Rightarrow> Decoration list" where
  "createLineDescriptionDecorations lineDescriptions =
     concat (map (\<lambda>desc. map (\<lambda>n. line_decoration n) (lines desc)) lineDescriptions)"

text \<open>
  For the statement about decorations only: the description each decoration was made
  from, in the order of the decorations.
\<close>

definition decoration_origins :: "LineDescription list \<Rightarrow> LineDescription list" where
  "decoration_origins lineDescriptions =
     concat (map (\<lambda>desc. map (\<lambda>n. desc) (lines desc)) lineDescriptions)"

section \<open>Sentinel lines\<close>

text \<open>
  The two tests the scan makes of a line, in its order: a line that holds the begin
  marker is a begin line whatever else it holds; an end line holds the end marker and
  not the begin marker.
\<close>

definition is_begin :: "string \<Rightarrow> bool" where
  "is_begin line \<longleftrightarrow> str_includes line begin_marker"

definition is_end :: "string \<Rightarrow> bool" where
  "is_end line \<longleftrightarrow> \<not> str_includes line begin_marker \<and> str_includes line end_marker"

datatype line_kind = BeginLine | EndLine | PlainLine

definition kind_of :: "string \<Rightarrow> line_kind" where
  "kind_of line = (if is_begin line then BeginLine else if is_end line then EndLine else PlainLine)"

text \<open>The zero-based indices, counted from \<open>i\<close>, of the elements that satisfy \<open>P\<close>.\<close>

fun indices_from :: "nat \<Rightarrow> ('a \<Rightarrow> bool) \<Rightarrow> 'a list \<Rightarrow> nat list" where
  "indices_from i P [] = []"
| "indices_from i P (x # xs) =
     (if P x then i # indices_from (Suc i) P xs else indices_from (Suc i) P xs)"

text \<open>
  What holds of the variables of the scan after the lines \<open>seen\<close>: the regions are in
  order and apart, each runs from a begin line to the line before an end line, and an
  open start lies after all of them.
\<close>

definition region_invariant :: "string list \<Rightarrow> parse_state \<Rightarrow> bool" where
  "region_invariant seen st \<longleftrightarrow>
     sorted_wrt (\<lambda>a b. endLine a < start b) (regions st) \<and>
     (\<forall>r\<in>set (regions st).
        1 \<le> start r \<and> start r \<le> endLine r \<and> endLine r < int (length seen) \<and>
        is_begin (seen ! nat (start r - 1)) \<and> is_end (seen ! nat (endLine r))) \<and>
     (\<forall>s. currentStart st = Some s \<longrightarrow>
        1 \<le> s \<and> s \<le> int (length seen) \<and> is_begin (seen ! nat (s - 1)) \<and>
        (\<forall>r\<in>set (regions st). endLine r < s))"

text \<open>An editable region as the editing view keeps it.\<close>

definition line_region :: "EditableRegion \<Rightarrow> LineRegion" where
  "line_region r = \<lparr>lr_start = start r, lr_end = endLine r\<rparr>"

section \<open>Basic facts\<close>

lemmas KeyCode_defs =
  KeyCode_Backspace_def KeyCode_Tab_def KeyCode_Enter_def KeyCode_Shift_def KeyCode_Ctrl_def
  KeyCode_Alt_def KeyCode_Space_def KeyCode_LeftArrow_def KeyCode_UpArrow_def
  KeyCode_RightArrow_def KeyCode_DownArrow_def KeyCode_Delete_def KeyCode_Digit0_def
  KeyCode_KeyV_def KeyCode_KeyZ_def KeyCode_Meta_def

lemma isPositionEditable_iff:
  "isPositionEditable rs p \<longleftrightarrow> (\<exists>r\<in>set rs. start r \<le> lineNumber p \<and> lineNumber p \<le> endLine r)"
  by (auto simp: isPositionEditable_def list_ex_iff)

lemma isRangeEditable_iff:
  "isRangeEditable rs a b \<longleftrightarrow> (\<exists>r\<in>set rs. start r \<le> a \<and> b \<le> endLine r)"
  by (auto simp: isRangeEditable_def list_ex_iff)

lemma validatedRegions_append:
  "validatedRegions T (xs @ ys) = validatedRegions T xs @ validatedRegions T ys"
  by (simp add: validatedRegions_def)

lemma clamp_region_inside:
  "1 \<le> start r \<Longrightarrow> start r \<le> endLine r \<Longrightarrow> endLine r \<le> T \<Longrightarrow> clamp_region T r = r"
  by (simp add: clamp_region_def)

lemma validatedRegions_inside:
  "\<forall>r\<in>set rs. 1 \<le> start r \<and> start r \<le> endLine r \<and> endLine r \<le> T \<Longrightarrow> validatedRegions T rs = rs"
  by (induction rs) (simp_all add: validatedRegions_def clamp_region_inside)

section \<open>Lookup of a line description (claim C8)\<close>

lemma findAt_Cons:
  "findAt n (d # ds) = (if n \<in> set (lines d) then Some d else findAt n ds)"
  by (simp add: findAt_def)

lemma findAt_Nil: "findAt n [] = None"
  by (simp add: findAt_def)

lemma findAt_None_iff: "findAt n ds = None \<longleftrightarrow> (\<forall>d\<in>set ds. n \<notin> set (lines d))"
  by (induction ds) (simp_all add: findAt_Cons findAt_Nil)

lemma findAt_Some_iff:
  "findAt n ds = Some a \<longleftrightarrow>
     (\<exists>pre post. ds = pre @ a # post \<and> n \<in> set (lines a) \<and> (\<forall>b\<in>set pre. n \<notin> set (lines b)))"
proof (induction ds)
  case Nil
  show ?case by (simp add: findAt_Nil)
next
  case (Cons d ds)
  show ?case
  proof (cases "n \<in> set (lines d)")
    case True
    have "(\<exists>pre post. d # ds = pre @ a # post \<and> n \<in> set (lines a) \<and> (\<forall>b\<in>set pre. n \<notin> set (lines b)))
        \<longleftrightarrow> d = a"
    proof
      assume "\<exists>pre post. d # ds = pre @ a # post \<and> n \<in> set (lines a) \<and> (\<forall>b\<in>set pre. n \<notin> set (lines b))"
      then obtain pre post where e: "d # ds = pre @ a # post"
        and p: "\<forall>b\<in>set pre. n \<notin> set (lines b)" by blast
      show "d = a"
      proof (cases pre)
        case Nil
        with e show ?thesis by simp
      next
        case (Cons x xs)
        with e have "x = d" by simp
        with Cons p True show ?thesis by simp
      qed
    next
      assume "d = a"
      with True have "d # ds = [] @ a # ds \<and> n \<in> set (lines a) \<and> (\<forall>b\<in>set []. n \<notin> set (lines b))"
        by simp
      then show "\<exists>pre post. d # ds = pre @ a # post \<and> n \<in> set (lines a) \<and> (\<forall>b\<in>set pre. n \<notin> set (lines b))"
        by blast
    qed
    with True show ?thesis by (simp add: findAt_Cons)
  next
    case False
    have "(\<exists>pre post. d # ds = pre @ a # post \<and> n \<in> set (lines a) \<and> (\<forall>b\<in>set pre. n \<notin> set (lines b)))
        \<longleftrightarrow> (\<exists>pre post. ds = pre @ a # post \<and> n \<in> set (lines a) \<and> (\<forall>b\<in>set pre. n \<notin> set (lines b)))"
      (is "?L \<longleftrightarrow> ?R")
    proof
      assume ?L
      then obtain pre post where e: "d # ds = pre @ a # post" and a: "n \<in> set (lines a)"
        and p: "\<forall>b\<in>set pre. n \<notin> set (lines b)" by blast
      show ?R
      proof (cases pre)
        case Nil
        with e a False show ?thesis by simp
      next
        case (Cons x xs)
        with e p a have "ds = xs @ a # post \<and> n \<in> set (lines a) \<and> (\<forall>b\<in>set xs. n \<notin> set (lines b))"
          by simp
        then show ?thesis by blast
      qed
    next
      assume ?R
      then obtain pre post where "ds = pre @ a # post" "n \<in> set (lines a)"
        "\<forall>b\<in>set pre. n \<notin> set (lines b)" by blast
      with False have "d # ds = (d # pre) @ a # post \<and> n \<in> set (lines a) \<and>
        (\<forall>b\<in>set (d # pre). n \<notin> set (lines b))" by simp
      then show ?L by blast
    qed
    with False Cons.IH show ?thesis by (simp add: findAt_Cons)
  qed
qed

text \<open>
  Claim C8. \<open>findAt\<close> returns null exactly when no description's lines hold the line;
  it returns a description exactly when that description holds the line and none before
  it in the list does; of two descriptions that both hold the line, the earlier one is
  returned, whatever else their line lists hold.
\<close>

theorem findAt_first_match:
  "(findAt n ds = None \<longleftrightarrow> (\<forall>d\<in>set ds. n \<notin> set (lines d))) \<and>
   (findAt n ds = Some a \<longleftrightarrow>
      (\<exists>pre post. ds = pre @ a # post \<and> n \<in> set (lines a) \<and> (\<forall>b\<in>set pre. n \<notin> set (lines b)))) \<and>
   (n \<in> set (lines x) \<and> n \<in> set (lines y) \<longrightarrow> findAt n (x # y # rest) = Some x)"
  using findAt_None_iff [of n ds] findAt_Some_iff [of n ds a] by (simp add: findAt_Cons)

theorem findAt_first_match_witness:
  "findAt 2 [\<lparr>lines = [2, 2], content = ''first'', imageData = None\<rparr>,
             \<lparr>lines = [2, 5], content = ''second'', imageData = None\<rparr>] =
     Some \<lparr>lines = [2, 2], content = ''first'', imageData = None\<rparr> \<and>
   findAt 7 [\<lparr>lines = [2, 2], content = ''first'', imageData = None\<rparr>,
             \<lparr>lines = [2, 5], content = ''second'', imageData = None\<rparr>] = None"
  using findAt_first_match [of 2 "[\<lparr>lines = [2, 2], content = ''first'', imageData = None\<rparr>,
             \<lparr>lines = [2, 5], content = ''second'', imageData = None\<rparr>]"
      "\<lparr>lines = [2, 2], content = ''first'', imageData = None\<rparr>"
      "\<lparr>lines = [2, 2], content = ''first'', imageData = None\<rparr>"
      "\<lparr>lines = [2, 5], content = ''second'', imageData = None\<rparr>" "[]"]
    findAt_first_match [of 7 "[\<lparr>lines = [2, 2], content = ''first'', imageData = None\<rparr>,
             \<lparr>lines = [2, 5], content = ''second'', imageData = None\<rparr>]"
      "\<lparr>lines = [2, 2], content = ''first'', imageData = None\<rparr>"
      "\<lparr>lines = [2, 2], content = ''first'', imageData = None\<rparr>"
      "\<lparr>lines = [2, 5], content = ''second'', imageData = None\<rparr>" "[]"]
  by simp

section \<open>Paste (claim C5)\<close>

lemma undo_after_paste: "trigger_undo (apply_paste b c ed) = ed"
  by (simp add: trigger_undo_def apply_paste_def)

text \<open>
  Claim C5. The paste handler runs on the state the paste has produced and looks at the
  cursor of that state. When the cursor lies in no region it triggers the undo command,
  once, and otherwise leaves the state alone. With the paste recorded as one undo entry,
  the editor is then back in the state before the paste, whole (buffer, cursor and undo
  stack). In particular a paste that began with the cursor inside a region and left it
  below that region's end, in no region, is undone.
\<close>

theorem paste_outside_regions_is_undone:
  "(cursor st = Some p \<and> \<not> isPositionEditable validated p \<longrightarrow>
      onDidPaste validated st = trigger_undo st) \<and>
   (cursor st = Some p \<and> isPositionEditable validated p \<longrightarrow> onDidPaste validated st = st) \<and>
   (\<not> isPositionEditable validated p \<longrightarrow>
      onDidPaste validated (apply_paste newBuffer (Some p) ed) = ed) \<and>
   (cursor ed = Some p0 \<and> r \<in> set validated \<and>
    start r \<le> lineNumber p0 \<and> lineNumber p0 \<le> endLine r \<and> endLine r < lineNumber p \<and>
    (\<forall>q\<in>set validated. lineNumber p < start q \<or> endLine q < lineNumber p) \<longrightarrow>
      onDidPaste validated (apply_paste newBuffer (Some p) ed) = ed)"
proof (intro conjI impI)
  assume "cursor st = Some p \<and> \<not> isPositionEditable validated p"
  then show "onDidPaste validated st = trigger_undo st"
    by (simp add: onDidPaste_def)
next
  assume "cursor st = Some p \<and> isPositionEditable validated p"
  then show "onDidPaste validated st = st"
    by (simp add: onDidPaste_def)
next
  assume "\<not> isPositionEditable validated p"
  then have "onDidPaste validated (apply_paste newBuffer (Some p) ed) =
      trigger_undo (apply_paste newBuffer (Some p) ed)"
    by (simp add: onDidPaste_def apply_paste_def)
  then show "onDidPaste validated (apply_paste newBuffer (Some p) ed) = ed"
    by (simp add: undo_after_paste)
next
  assume "cursor ed = Some p0 \<and> r \<in> set validated \<and>
    start r \<le> lineNumber p0 \<and> lineNumber p0 \<le> endLine r \<and> endLine r < lineNumber p \<and>
    (\<forall>q\<in>set validated. lineNumber p < start q \<or> endLine q < lineNumber p)"
  then have "\<not> isPositionEditable validated p"
    by (fastforce simp: isPositionEditable_iff)
  then have "onDidPaste validated (apply_paste newBuffer (Some p) ed) =
      trigger_undo (apply_paste newBuffer (Some p) ed)"
    by (simp add: onDidPaste_def apply_paste_def)
  then show "onDidPaste validated (apply_paste newBuffer (Some p) ed) = ed"
    by (simp add: undo_after_paste)
qed

theorem paste_outside_regions_is_undone_witness:
  "onDidPaste [\<lparr>start = 3, endLine = 5, description = ''d'', title = ''t''\<rparr>]
     (apply_paste ''new text'' (Some \<lparr>lineNumber = 7, column = 1\<rparr>)
        \<lparr>buffer = ''old text'', cursor = Some \<lparr>lineNumber = 4, column = 2\<rparr>, undoStack = []\<rparr>) =
   \<lparr>buffer = ''old text'', cursor = Some \<lparr>lineNumber = 4, column = 2\<rparr>, undoStack = []\<rparr> \<and>
   onDidPaste [\<lparr>start = 3, endLine = 5, description = ''d'', title = ''t''\<rparr>]
     \<lparr>buffer = ''new text'', cursor = Some \<lparr>lineNumber = 5, column = 1\<rparr>,
      undoStack = [(''old text'', Some \<lparr>lineNumber = 4, column = 2\<rparr>)]\<rparr> =
   \<lparr>buffer = ''new text'', cursor = Some \<lparr>lineNumber = 5, column = 1\<rparr>,
    undoStack = [(''old text'', Some \<lparr>lineNumber = 4, column = 2\<rparr>)]\<rparr>"
  using paste_outside_regions_is_undone
      [where validated = "[\<lparr>start = 3, endLine = 5, description = ''d'', title = ''t''\<rparr>]"
         and p = "\<lparr>lineNumber = 7, column = 1\<rparr>" and newBuffer = "''new text''"
         and ed = "\<lparr>buffer = ''old text'', cursor = Some \<lparr>lineNumber = 4, column = 2\<rparr>, undoStack = []\<rparr>"
         and ?p0.0 = "\<lparr>lineNumber = 4, column = 2\<rparr>"
         and r = "\<lparr>start = 3, endLine = 5, description = ''d'', title = ''t''\<rparr>"
         and st = "apply_paste ''new text'' (Some \<lparr>lineNumber = 7, column = 1\<rparr>)
            \<lparr>buffer = ''old text'', cursor = Some \<lparr>lineNumber = 4, column = 2\<rparr>, undoStack = []\<rparr>"]
    paste_outside_regions_is_undone
      [where validated = "[\<lparr>start = 3, endLine = 5, description = ''d'', title = ''t''\<rparr>]"
         and p = "\<lparr>lineNumber = 5, column = 1\<rparr>" and newBuffer = "''new text''"
         and ed = "\<lparr>buffer = ''old text'', cursor = Some \<lparr>lineNumber = 4, column = 2\<rparr>, undoStack = []\<rparr>"
         and ?p0.0 = "\<lparr>lineNumber = 4, column = 2\<rparr>"
         and r = "\<lparr>start = 3, endLine = 5, description = ''d'', title = ''t''\<rparr>"
         and st = "\<lparr>buffer = ''new text'', cursor = Some \<lparr>lineNumber = 5, column = 1\<rparr>,
            undoStack = [(''old text'', Some \<lparr>lineNumber = 4, column = 2\<rparr>)]\<rparr>"]
  by (simp add: isPositionEditable_def apply_paste_def trigger_undo_def)

section \<open>Key handler (claim C4)\<close>

lemma onKeyDown_blocks_iff:
  "onKeyDown validated (Some sels) e \<longleftrightarrow> \<not> isEditAllowed validated sels \<and> isEditingKey e"
  by (simp add: onKeyDown_def)

lemma navigation_keys_pass:
  "keyCode e \<in> {KeyCode_LeftArrow, KeyCode_UpArrow, KeyCode_RightArrow, KeyCode_DownArrow,
      KeyCode_Shift, KeyCode_Ctrl, KeyCode_Alt, KeyCode_Meta} \<Longrightarrow> \<not> onKeyDown validated sels e"
  by (auto simp: onKeyDown_def isEditingKey_def KeyCode_defs split: option.splits)

lemma single_cursor_allowed_iff:
  "isEmpty sel \<Longrightarrow> isEditingKey e \<Longrightarrow>
   \<not> onKeyDown validated (Some [Some sel]) e \<longleftrightarrow>
     (\<exists>r\<in>set validated. start r \<le> positionLineNumber sel \<and> positionLineNumber sel \<le> endLine r)"
  by (simp add: onKeyDown_def isEditAllowed_def isPositionEditable_iff getPosition_def)

lemma recognised_editing_keys:
  "isEditingKey (e\<lparr>keyCode := KeyCode_Backspace\<rparr>)"
  "isEditingKey (e\<lparr>keyCode := KeyCode_Delete\<rparr>)"
  "isEditingKey (e\<lparr>keyCode := KeyCode_Enter\<rparr>)"
  "isEditingKey (e\<lparr>keyCode := KeyCode_Tab\<rparr>)"
  "isEditingKey (e\<lparr>keyCode := KeyCode_KeyV, ctrlKey := True\<rparr>)"
  by (simp_all add: isEditingKey_def)

text \<open>
  Claim C4. With the cursor on line 1 and the only region on lines 3 to 5, the edit is
  not allowed, yet the handler lets the space key through, and likewise the paste chord
  made with the meta key: the keys it stops are backspace, delete, enter, tab, control-V
  and the unmodified keys from \<open>Digit0\<close> to \<open>KeyZ\<close>.
\<close>

theorem space_key_passes_in_read_only_line:
  "\<not> isEditAllowed [\<lparr>start = 3, endLine = 5, description = ''d'', title = ''t''\<rparr>]
       [Some \<lparr>startLineNumber = 1, startColumn = 1, endLineNumber = 1, endColumn = 1,
              selectionStartLineNumber = 1, selectionStartColumn = 1,
              positionLineNumber = 1, positionColumn = 1\<rparr>] \<and>
   onKeyDown [\<lparr>start = 3, endLine = 5, description = ''d'', title = ''t''\<rparr>]
       (Some [Some \<lparr>startLineNumber = 1, startColumn = 1, endLineNumber = 1, endColumn = 1,
              selectionStartLineNumber = 1, selectionStartColumn = 1,
              positionLineNumber = 1, positionColumn = 1\<rparr>])
       \<lparr>keyCode = KeyCode_Space, ctrlKey = False, shiftKey = False, altKey = False, metaKey = False\<rparr>
     = False \<and>
   onKeyDown [\<lparr>start = 3, endLine = 5, description = ''d'', title = ''t''\<rparr>]
       (Some [Some \<lparr>startLineNumber = 1, startColumn = 1, endLineNumber = 1, endColumn = 1,
              selectionStartLineNumber = 1, selectionStartColumn = 1,
              positionLineNumber = 1, positionColumn = 1\<rparr>])
       \<lparr>keyCode = KeyCode_KeyV, ctrlKey = False, shiftKey = False, altKey = False, metaKey = True\<rparr>
     = False"
  by (simp add: onKeyDown_def isEditAllowed_def isEmpty_def getPosition_def
      isPositionEditable_def isEditingKey_def KeyCode_defs)

section \<open>Scenario 1 (claim C1)\<close>

text \<open>
  Claim C1. On a text whose line 2 is the begin-sentinel with title and description and
  whose line 6 is the end-sentinel, the scan returns one region with the title and the
  description of the comment, ending on line 5 and starting on line 2, the line of the
  begin-sentinel itself (\<open>index + 1\<close> of a zero-based index).
\<close>

theorem parse_scenario_start_is_sentinel_line:
  "parse (''module playground {'' @ [CHR 0x0A] @
          ''// @editable-begin Title - Desc'' @ [CHR 0x0A] @
          ''let a = 1;'' @ [CHR 0x0A] @
          ''let b = 2;'' @ [CHR 0x0A] @
          ''let c = 3;'' @ [CHR 0x0A] @
          ''// @editable-end'' @ [CHR 0x0A] @
          ''}'') =
     [\<lparr>start = 2, endLine = 5, description = ''Desc'', title = ''Title''\<rparr>]"
  by code_simp

text \<open>The scan of the workshop service starts its region on the line after the marker.\<close>

lemma service_scan_starts_after_marker:
  "getEditableRegions (''module playground {'' @ [CHR 0x0A] @
          ''// @editable-begin: Desc'' @ [CHR 0x0A] @
          ''let a = 1;'' @ [CHR 0x0A] @
          ''let b = 2;'' @ [CHR 0x0A] @
          ''let c = 3;'' @ [CHR 0x0A] @
          ''// @editable-end'' @ [CHR 0x0A] @
          ''}'') =
     [\<lparr>startLine = 3, sv_endLine = 5, sv_description = ''Desc''\<rparr>]"
  by code_simp

section \<open>Decorations of line descriptions (claim C9)\<close>

lemma findAt_append:
  "findAt n (xs @ ys) = (case findAt n xs of Some a \<Rightarrow> Some a | None \<Rightarrow> findAt n ys)"
  by (induction xs) (simp_all add: findAt_Cons findAt_Nil)

lemma decorations_Cons:
  "createLineDescriptionDecorations (d # ds) =
     map line_decoration (lines d) @ createLineDescriptionDecorations ds"
  by (simp add: createLineDescriptionDecorations_def)

lemma origins_Cons:
  "decoration_origins (d # ds) = map (\<lambda>n. d) (lines d) @ decoration_origins ds"
  by (simp add: decoration_origins_def)

lemma decoration_line: "startLineNumber (decorationRange (line_decoration n)) = n"
  by (simp add: line_decoration_def)

lemma decorations_are_lines:
  "createLineDescriptionDecorations ds = map line_decoration (concat (map lines ds))"
  by (induction ds) (simp_all add: createLineDescriptionDecorations_def)

lemma decorations_count:
  "length (createLineDescriptionDecorations ds) = sum_list (map (\<lambda>d. length (lines d)) ds)"
  by (induction ds) (simp_all add: createLineDescriptionDecorations_def)

lemma origins_count:
  "length (decoration_origins ds) = length (createLineDescriptionDecorations ds)"
  by (induction ds) (simp_all add: createLineDescriptionDecorations_def decoration_origins_def)

lemma hover_recovers_origin_gen:
  "sorted_wrt (\<lambda>a b. set (lines a) \<inter> set (lines b) = {}) ds \<Longrightarrow>
   \<forall>b\<in>set pre. \<forall>d\<in>set ds. set (lines b) \<inter> set (lines d) = {} \<Longrightarrow>
   map (\<lambda>dec. findAt (startLineNumber (decorationRange dec)) (pre @ ds))
     (createLineDescriptionDecorations ds) = map Some (decoration_origins ds)"
proof (induction ds arbitrary: pre)
  case Nil
  show ?case by (simp add: createLineDescriptionDecorations_def decoration_origins_def)
next
  case (Cons d ds)
  have pre_none: "findAt n pre = None" if "n \<in> set (lines d)" for n
    using that Cons.prems(2) by (auto simp: findAt_None_iff)
  have here: "map (\<lambda>dec. findAt (startLineNumber (decorationRange dec)) (pre @ d # ds))
      (map line_decoration (lines d)) = map Some (map (\<lambda>n. d) (lines d))"
    by (simp add: decoration_line findAt_append pre_none findAt_Cons)
  have "map (\<lambda>dec. findAt (startLineNumber (decorationRange dec)) ((pre @ [d]) @ ds))
      (createLineDescriptionDecorations ds) = map Some (decoration_origins ds)"
  proof (rule Cons.IH)
    show "sorted_wrt (\<lambda>a b. set (lines a) \<inter> set (lines b) = {}) ds"
      using Cons.prems(1) by simp
    show "\<forall>b\<in>set (pre @ [d]). \<forall>x\<in>set ds. set (lines b) \<inter> set (lines x) = {}"
      using Cons.prems by auto
  qed
  with here show ?case by (simp add: decorations_Cons origins_Cons)
qed

text \<open>
  Claim C9, as amended. There is one decoration for each entry of each description's
  line list, so their number is the sum of the lengths of the line lists; they come in
  the order of the descriptions and, within one, of its lines; each is a whole-line
  decoration ranged at its line. A decoration holds nothing but its line: looking that
  line up gives back the description it was made from when the line lists of the
  descriptions are pairwise disjoint.
\<close>

theorem decorations_fan_out:
  "length (createLineDescriptionDecorations ds) = sum_list (map (\<lambda>d. length (lines d)) ds) \<and>
   createLineDescriptionDecorations ds = map line_decoration (concat (map lines ds)) \<and>
   map (\<lambda>dec. startLineNumber (decorationRange dec)) (createLineDescriptionDecorations ds) =
     concat (map lines ds) \<and>
   isWholeLine (options (line_decoration n)) \<and>
   startLineNumber (decorationRange (line_decoration n)) = n \<and>
   endLineNumber (decorationRange (line_decoration n)) = n \<and>
   (sorted_wrt (\<lambda>a b. set (lines a) \<inter> set (lines b) = {}) ds \<longrightarrow>
      map (\<lambda>dec. findAt (startLineNumber (decorationRange dec)) ds)
        (createLineDescriptionDecorations ds) = map Some (decoration_origins ds))"
proof (intro conjI impI)
  show "length (createLineDescriptionDecorations ds) = sum_list (map (\<lambda>d. length (lines d)) ds)"
    by (rule decorations_count)
  show "createLineDescriptionDecorations ds = map line_decoration (concat (map lines ds))"
    by (rule decorations_are_lines)
  show "map (\<lambda>dec. startLineNumber (decorationRange dec)) (createLineDescriptionDecorations ds) =
     concat (map lines ds)"
    by (simp add: decorations_are_lines decoration_line comp_def)
  show "isWholeLine (options (line_decoration n))"
    "startLineNumber (decorationRange (line_decoration n)) = n"
    "endLineNumber (decorationRange (line_decoration n)) = n"
    by (simp_all add: line_decoration_def)
next
  assume "sorted_wrt (\<lambda>a b. set (lines a) \<inter> set (lines b) = {}) ds"
  then show "map (\<lambda>dec. findAt (startLineNumber (decorationRange dec)) ds)
        (createLineDescriptionDecorations ds) = map Some (decoration_origins ds)"
    using hover_recovers_origin_gen [of ds "[]"] by simp
qed

theorem decorations_fan_out_witness:
  "length (createLineDescriptionDecorations
      [\<lparr>lines = [3, 5, 7], content = ''first'', imageData = None\<rparr>,
       \<lparr>lines = [4], content = ''second'', imageData = None\<rparr>]) = 4 \<and>
   map (\<lambda>dec. findAt (startLineNumber (decorationRange dec))
      [\<lparr>lines = [3, 5, 7], content = ''first'', imageData = None\<rparr>,
       \<lparr>lines = [4], content = ''second'', imageData = None\<rparr>])
     (createLineDescriptionDecorations
      [\<lparr>lines = [3, 5, 7], content = ''first'', imageData = None\<rparr>,
       \<lparr>lines = [4], content = ''second'', imageData = None\<rparr>]) =
   [Some \<lparr>lines = [3, 5, 7], content = ''first'', imageData = None\<rparr>,
    Some \<lparr>lines = [3, 5, 7], content = ''first'', imageData = None\<rparr>,
    Some \<lparr>lines = [3, 5, 7], content = ''first'', imageData = None\<rparr>,
    Some \<lparr>lines = [4], content = ''second'', imageData = None\<rparr>]"
  using decorations_fan_out
      [of "[\<lparr>lines = [3, 5, 7], content = ''first'', imageData = None\<rparr>,
            \<lparr>lines = [4], content = ''second'', imageData = None\<rparr>]" 3]
  by (simp add: decoration_origins_def createLineDescriptionDecorations_def
      line_decoration_def findAt_def)

text \<open>
  When two descriptions share a line, their decorations for it are equal although they
  come from different descriptions, and the lookup of the second one's line gives the
  first description.
\<close>

theorem decoration_origin_counterexample:
  "createLineDescriptionDecorations
      [\<lparr>lines = [2], content = ''first'', imageData = None\<rparr>,
       \<lparr>lines = [2, 5], content = ''second'', imageData = None\<rparr>] ! 0 =
   createLineDescriptionDecorations
      [\<lparr>lines = [2], content = ''first'', imageData = None\<rparr>,
       \<lparr>lines = [2, 5], content = ''second'', imageData = None\<rparr>] ! 1 \<and>
   decoration_origins
      [\<lparr>lines = [2], content = ''first'', imageData = None\<rparr>,
       \<lparr>lines = [2, 5], content = ''second'', imageData = None\<rparr>] ! 0 \<noteq>
   decoration_origins
      [\<lparr>lines = [2], content = ''first'', imageData = None\<rparr>,
       \<lparr>lines = [2, 5], content = ''second'', imageData = None\<rparr>] ! 1 \<and>
   findAt (startLineNumber (decorationRange (createLineDescriptionDecorations
      [\<lparr>lines = [2], content = ''first'', imageData = None\<rparr>,
       \<lparr>lines = [2, 5], content = ''second'', imageData = None\<rparr>] ! 1)))
      [\<lparr>lines = [2], content = ''first'', imageData = None\<rparr>,
       \<lparr>lines = [2, 5], content = ''second'', imageData = None\<rparr>] \<noteq>
   Some (decoration_origins
      [\<lparr>lines = [2], content = ''first'', imageData = None\<rparr>,
       \<lparr>lines = [2, 5], content = ''second'', imageData = None\<rparr>] ! 1)"
  by (simp add: createLineDescriptionDecorations_def decoration_origins_def findAt_def
      line_decoration_def)

section \<open>The scan, line by line\<close>

lemma parse_line_begin:
  "is_begin l \<Longrightarrow> regions (parse_line st l i) = regions st"
  "is_begin l \<Longrightarrow> currentStart (parse_line st l i) = Some (int i + 1)"
  by (auto simp: parse_line_def is_begin_def split: option.splits)

lemma parse_line_begin_same:
  "is_begin l \<Longrightarrow> regions st = regions st' \<Longrightarrow> parse_line st l i = parse_line st' l i"
  by (cases st; cases st') (auto simp: parse_line_def is_begin_def split: option.splits)

lemma parse_line_end_open:
  "is_end l \<Longrightarrow> currentStart st = Some s \<Longrightarrow>
   parse_line st l i =
     st\<lparr>regions := regions st @
           [\<lparr>start = s, endLine = int i,
             description = currentDescription st, title = currentTitle st\<rparr>],
        currentStart := None, currentTitle := [], currentDescription := []\<rparr>"
  by (simp add: parse_line_def is_end_def)

lemma parse_line_end_closed:
  "is_end l \<Longrightarrow> currentStart st = None \<Longrightarrow> parse_line st l i = st"
  by (simp add: parse_line_def is_end_def)

lemma parse_line_plain:
  "\<not> is_begin l \<Longrightarrow> \<not> is_end l \<Longrightarrow> parse_line st l i = st"
  by (simp add: parse_line_def is_end_def is_begin_def)

lemma parse_line_not_end:
  "\<not> is_end l \<Longrightarrow> regions (parse_line st l i) = regions st"
  by (cases "is_begin l") (simp_all add: parse_line_begin parse_line_plain)

lemma forEach_append:
  "forEach f (xs @ ys) i st = forEach f ys (i + length xs) (forEach f xs i st)"
  by (induction xs arbitrary: i st) simp_all

lemma invariant_step:
  assumes "region_invariant seen st"
  shows "region_invariant (seen @ [l]) (parse_line st l (length seen))"
proof -
  let ?n = "length seen"
  have old: "(seen @ [l]) ! nat k = seen ! nat k" if "0 \<le> k" "k < int ?n" for k
  proof -
    from that have "nat k < ?n" by linarith
    then show ?thesis by (simp add: nth_append)
  qed
  consider (b) "is_begin l" | (eo) s where "is_end l" "currentStart st = Some s"
    | (ec) "is_end l" "currentStart st = None" | (p) "\<not> is_begin l" "\<not> is_end l"
    by (cases "currentStart st") auto
  then show ?thesis
  proof cases
    case b
    have "(seen @ [l]) ! nat (int ?n + 1 - 1) = l" by simp
    with b assms show ?thesis
      unfolding region_invariant_def
      by (auto simp: parse_line_begin old nth_append)
  next
    case eo
    from assms eo(2) have s: "1 \<le> s" "s \<le> int ?n" "is_begin (seen ! nat (s - 1))"
      "\<forall>r\<in>set (regions st). endLine r < s"
      unfolding region_invariant_def by auto
    have "(seen @ [l]) ! nat (int ?n) = l" by simp
    moreover have "(seen @ [l]) ! nat (s - 1) = seen ! nat (s - 1)"
      using s by (intro old) simp_all
    ultimately show ?thesis
      using assms eo s unfolding region_invariant_def
      by (auto simp: parse_line_end_open sorted_wrt_append old nth_append)
  next
    case ec
    with assms show ?thesis
      unfolding region_invariant_def
      by (auto simp: parse_line_end_closed old nth_append)
  next
    case p
    with assms show ?thesis
      unfolding region_invariant_def
      apply (simp add: parse_line_plain)
      by (auto simp: old nth_append)
  qed
qed

lemma invariant_forEach:
  "region_invariant seen st \<Longrightarrow>
   region_invariant (seen @ xs) (forEach parse_line xs (length seen) st)"
proof (induction xs arbitrary: seen st)
  case Nil
  then show ?case by simp
next
  case (Cons l xs)
  from invariant_step [OF Cons.prems]
  have "region_invariant ((seen @ [l]) @ xs)
     (forEach parse_line xs (length (seen @ [l])) (parse_line st l (length seen)))"
    by (rule Cons.IH)
  then show ?case by simp
qed

lemma invariant_parse:
  "region_invariant (split_newline code) (forEach parse_line (split_newline code) 0 initial_state)"
proof -
  have "region_invariant [] initial_state"
    by (simp add: region_invariant_def initial_state_def)
  from invariant_forEach [OF this, of "split_newline code"] show ?thesis by simp
qed

section \<open>Order and disjointness of the parsed regions (claim C10)\<close>

lemma editing_step:
  "editing_parse_line (map line_region (regions st), currentStart st) l i =
     (map line_region (regions (parse_line st l i)), currentStart (parse_line st l i))"
  by (auto simp: editing_parse_line_def parse_line_def line_region_def split: option.splits)

lemma editing_forEach:
  "forEach editing_parse_line xs i (map line_region (regions st), currentStart st) =
     (map line_region (regions (forEach parse_line xs i st)),
      currentStart (forEach parse_line xs i st))"
  by (induction xs arbitrary: i st) (simp_all add: editing_step)

lemma editing_parse_eq: "editing_parse code = map line_region (parse code)"
  using editing_forEach [of "split_newline code" 0 initial_state]
  by (simp add: editing_parse_def parse_def initial_state_def)

lemma parse_sorted: "sorted_wrt (\<lambda>a b. endLine a < start b) (parse code)"
  using invariant_parse [of code] by (simp add: region_invariant_def parse_def)

lemma parse_bounds:
  "r \<in> set (parse code) \<Longrightarrow>
     1 \<le> start r \<and> start r \<le> endLine r \<and> endLine r < int (length (split_newline code))"
  using invariant_parse [of code] by (simp add: region_invariant_def parse_def)

lemma parse_sentinels:
  "r \<in> set (parse code) \<Longrightarrow>
     is_begin (split_newline code ! nat (start r - 1)) \<and> is_end (split_newline code ! nat (endLine r))"
  using invariant_parse [of code] by (simp add: region_invariant_def parse_def)

lemma apart_at_most_one:
  "sorted_wrt (\<lambda>a b. endLine a < start b) rs \<Longrightarrow>
   length (filter (\<lambda>r. start r \<le> n \<and> n \<le> endLine r) rs) \<le> 1"
proof (induction rs)
  case Nil
  show ?case by simp
next
  case (Cons a rs)
  show ?case
  proof (cases "start a \<le> n \<and> n \<le> endLine a")
    case True
    with Cons.prems have "\<forall>b\<in>set rs. n < start b" by auto
    then have "filter (\<lambda>r. start r \<le> n \<and> n \<le> endLine r) rs = []"
      by (auto simp: filter_empty_conv)
    with True show ?thesis by simp
  next
    case False
    with Cons show ?thesis by auto
  qed
qed

text \<open>
  Claim C10. For every text, nested or malformed sentinels included, each region that
  the scan of the playground returns ends before every later region starts and has its
  start at or before its end, so that no line lies in two regions; the same holds of the
  scan of the editing view.
\<close>

theorem parsed_regions_apart:
  "sorted_wrt (\<lambda>a b. endLine a < start b) (parse code) \<and>
   (\<forall>r\<in>set (parse code). start r \<le> endLine r) \<and>
   length (filter (\<lambda>r. start r \<le> n \<and> n \<le> endLine r) (parse code)) \<le> 1 \<and>
   sorted_wrt (\<lambda>a b. lr_end a < lr_start b) (editing_parse code) \<and>
   (\<forall>r\<in>set (editing_parse code). lr_start r \<le> lr_end r) \<and>
   length (filter (\<lambda>r. lr_start r \<le> n \<and> n \<le> lr_end r) (editing_parse code)) \<le> 1"
proof (intro conjI)
  show s: "sorted_wrt (\<lambda>a b. endLine a < start b) (parse code)" by (rule parse_sorted)
  show b: "\<forall>r\<in>set (parse code). start r \<le> endLine r" using parse_bounds by blast
  show o: "length (filter (\<lambda>r. start r \<le> n \<and> n \<le> endLine r) (parse code)) \<le> 1"
    using s by (rule apart_at_most_one)
  show "sorted_wrt (\<lambda>a b. lr_end a < lr_start b) (editing_parse code)"
    using s by (simp add: editing_parse_eq sorted_wrt_map line_region_def)
  show "\<forall>r\<in>set (editing_parse code). lr_start r \<le> lr_end r"
    using b by (simp add: editing_parse_eq line_region_def)
  show "length (filter (\<lambda>r. lr_start r \<le> n \<and> n \<le> lr_end r) (editing_parse code)) \<le> 1"
    using o by (simp add: editing_parse_eq filter_map comp_def line_region_def)
qed

theorem parsed_regions_apart_witness:
  "parse (''// @editable-begin A - one'' @ [CHR 0x0A] @
          ''// @editable-begin B - two'' @ [CHR 0x0A] @
          ''x'' @ [CHR 0x0A] @
          ''// @editable-end'' @ [CHR 0x0A] @
          ''// @editable-end'' @ [CHR 0x0A] @
          ''// @editable-begin'' @ [CHR 0x0A] @
          ''// @editable-end'') =
     [\<lparr>start = 2, endLine = 3, description = ''two'', title = ''B''\<rparr>,
      \<lparr>start = 6, endLine = 6, description = ''This section can be modified'',
         title = ''Editable Section''\<rparr>] \<and>
   sorted_wrt (\<lambda>a b. endLine a < start b)
     (parse (''// @editable-begin A - one'' @ [CHR 0x0A] @
          ''// @editable-begin B - two'' @ [CHR 0x0A] @
          ''x'' @ [CHR 0x0A] @
          ''// @editable-end'' @ [CHR 0x0A] @
          ''// @editable-end'' @ [CHR 0x0A] @
          ''// @editable-begin'' @ [CHR 0x0A] @
          ''// @editable-end''))"
proof -
  have "parse (''// @editable-begin A - one'' @ [CHR 0x0A] @
          ''// @editable-begin B - two'' @ [CHR 0x0A] @
          ''x'' @ [CHR 0x0A] @
          ''// @editable-end'' @ [CHR 0x0A] @
          ''// @editable-end'' @ [CHR 0x0A] @
          ''// @editable-begin'' @ [CHR 0x0A] @
          ''// @editable-end'') =
     [\<lparr>start = 2, endLine = 3, description = ''two'', title = ''B''\<rparr>,
      \<lparr>start = 6, endLine = 6, description = ''This section can be modified'',
         title = ''Editable Section''\<rparr>]"
    by code_simp
  moreover note parsed_regions_apart [of "''// @editable-begin A - one'' @ [CHR 0x0A] @
          ''// @editable-begin B - two'' @ [CHR 0x0A] @
          ''x'' @ [CHR 0x0A] @
          ''// @editable-end'' @ [CHR 0x0A] @
          ''// @editable-end'' @ [CHR 0x0A] @
          ''// @editable-begin'' @ [CHR 0x0A] @
          ''// @editable-end''" 3]
  ultimately show ?thesis by blast
qed

section \<open>Correctly paired blocks (claim C3)\<close>

lemma kind_of_simps:
  "is_begin l \<Longrightarrow> kind_of l = BeginLine"
  "is_end l \<Longrightarrow> kind_of l = EndLine"
  "\<not> is_begin l \<Longrightarrow> \<not> is_end l \<Longrightarrow> kind_of l = PlainLine"
  by (auto simp: kind_of_def is_end_def is_begin_def)

lemma not_both: "is_begin l \<Longrightarrow> \<not> is_end l"
  by (simp add: is_begin_def is_end_def)

lemma pairs_start:
  "concat (replicate N [BeginLine, EndLine]) = k # ks \<Longrightarrow>
     k = BeginLine \<and> (\<exists>M. N = Suc M \<and> ks = EndLine # concat (replicate M [BeginLine, EndLine]))"
  by (cases N) auto

lemma paired_scan:
  "(currentStart st = None \<longrightarrow>
      filter (\<lambda>k. k \<noteq> PlainLine) (map kind_of ls) = concat (replicate N [BeginLine, EndLine]) \<longrightarrow>
      length (regions (forEach parse_line ls i st)) = length (regions st) + N \<and>
      map start (regions (forEach parse_line ls i st)) =
        map start (regions st) @ map (\<lambda>k. int k + 1) (indices_from i is_begin ls) \<and>
      map endLine (regions (forEach parse_line ls i st)) =
        map endLine (regions st) @ map int (indices_from i is_end ls)) \<and>
   (\<forall>s. currentStart st = Some s \<longrightarrow>
      filter (\<lambda>k. k \<noteq> PlainLine) (map kind_of ls) =
        EndLine # concat (replicate N [BeginLine, EndLine]) \<longrightarrow>
      length (regions (forEach parse_line ls i st)) = length (regions st) + Suc N \<and>
      map start (regions (forEach parse_line ls i st)) =
        map start (regions st) @ s # map (\<lambda>k. int k + 1) (indices_from i is_begin ls) \<and>
      map endLine (regions (forEach parse_line ls i st)) =
        map endLine (regions st) @ map int (indices_from i is_end ls))"
proof (induction ls arbitrary: i st N)
  case Nil
  show ?case by (cases N) simp_all
next
  case (Cons l ls)
  consider (b) "is_begin l" | (e) "is_end l" | (p) "\<not> is_begin l" "\<not> is_end l" by blast
  then show ?case
  proof cases
    case p
    then show ?thesis
      using Cons.IH [of st N "Suc i"] by (simp add: parse_line_plain kind_of_simps)
  next
    case b
    let ?st = "parse_line st l i"
    have st': "regions ?st = regions st" "currentStart ?st = Some (int i + 1)"
      using b by (simp_all add: parse_line_begin)
    have ne: "\<not> is_end l" using b by (rule not_both)
    show ?thesis
    proof (intro conjI impI allI)
      fix s
      assume "filter (\<lambda>k. k \<noteq> PlainLine) (map kind_of (l # ls)) =
        EndLine # concat (replicate N [BeginLine, EndLine])"
      then have False using b by (simp add: kind_of_simps)
      then show "length (regions (forEach parse_line (l # ls) i st)) = length (regions st) + Suc N"
        "map start (regions (forEach parse_line (l # ls) i st)) =
          map start (regions st) @ s # map (\<lambda>k. int k + 1) (indices_from i is_begin (l # ls))"
        "map endLine (regions (forEach parse_line (l # ls) i st)) =
          map endLine (regions st) @ map int (indices_from i is_end (l # ls))"
        by blast+
    next
      assume "filter (\<lambda>k. k \<noteq> PlainLine) (map kind_of (l # ls)) =
        concat (replicate N [BeginLine, EndLine])"
      then have "concat (replicate N [BeginLine, EndLine]) =
          BeginLine # filter (\<lambda>k. k \<noteq> PlainLine) (map kind_of ls)"
        using b by (simp add: kind_of_simps)
      from pairs_start [OF this] obtain M where M: "N = Suc M"
        "filter (\<lambda>k. k \<noteq> PlainLine) (map kind_of ls) =
           EndLine # concat (replicate M [BeginLine, EndLine])" by blast
      from Cons.IH [of ?st M "Suc i"] st' M(2)
      have "length (regions (forEach parse_line ls (Suc i) ?st)) = length (regions st) + Suc M \<and>
        map start (regions (forEach parse_line ls (Suc i) ?st)) =
          map start (regions st) @ (int i + 1) # map (\<lambda>k. int k + 1) (indices_from (Suc i) is_begin ls) \<and>
        map endLine (regions (forEach parse_line ls (Suc i) ?st)) =
          map endLine (regions st) @ map int (indices_from (Suc i) is_end ls)"
        by simp
      then show "length (regions (forEach parse_line (l # ls) i st)) = length (regions st) + N"
        "map start (regions (forEach parse_line (l # ls) i st)) =
          map start (regions st) @ map (\<lambda>k. int k + 1) (indices_from i is_begin (l # ls))"
        "map endLine (regions (forEach parse_line (l # ls) i st)) =
          map endLine (regions st) @ map int (indices_from i is_end (l # ls))"
        using b ne M(1) by simp_all
    qed
  next
    case e
    have nb: "\<not> is_begin l" using e not_both by blast
    show ?thesis
    proof (intro conjI impI allI)
      assume "filter (\<lambda>k. k \<noteq> PlainLine) (map kind_of (l # ls)) =
        concat (replicate N [BeginLine, EndLine])"
      then have "concat (replicate N [BeginLine, EndLine]) =
          EndLine # filter (\<lambda>k. k \<noteq> PlainLine) (map kind_of ls)"
        using e by (simp add: kind_of_simps)
      from pairs_start [OF this] have False by simp
      then show "length (regions (forEach parse_line (l # ls) i st)) = length (regions st) + N"
        "map start (regions (forEach parse_line (l # ls) i st)) =
          map start (regions st) @ map (\<lambda>k. int k + 1) (indices_from i is_begin (l # ls))"
        "map endLine (regions (forEach parse_line (l # ls) i st)) =
          map endLine (regions st) @ map int (indices_from i is_end (l # ls))"
        by blast+
    next
      fix s
      assume s: "currentStart st = Some s"
        and f: "filter (\<lambda>k. k \<noteq> PlainLine) (map kind_of (l # ls)) =
        EndLine # concat (replicate N [BeginLine, EndLine])"
      let ?st = "parse_line st l i"
      have st': "currentStart ?st = None"
        "regions ?st = regions st @
           [\<lparr>start = s, endLine = int i,
             description = currentDescription st, title = currentTitle st\<rparr>]"
        using e s by (simp_all add: parse_line_end_open)
      from f e have "filter (\<lambda>k. k \<noteq> PlainLine) (map kind_of ls) =
          concat (replicate N [BeginLine, EndLine])"
        by (simp add: kind_of_simps)
      with Cons.IH [of ?st N "Suc i"] st'
      have "length (regions (forEach parse_line ls (Suc i) ?st)) = length (regions st) + Suc N \<and>
        map start (regions (forEach parse_line ls (Suc i) ?st)) =
          map start (regions st) @ s # map (\<lambda>k. int k + 1) (indices_from (Suc i) is_begin ls) \<and>
        map endLine (regions (forEach parse_line ls (Suc i) ?st)) =
          map endLine (regions st) @ int i # map int (indices_from (Suc i) is_end ls)"
        by simp
      then show "length (regions (forEach parse_line (l # ls) i st)) = length (regions st) + Suc N"
        "map start (regions (forEach parse_line (l # ls) i st)) =
          map start (regions st) @ s # map (\<lambda>k. int k + 1) (indices_from i is_begin (l # ls))"
        "map endLine (regions (forEach parse_line (l # ls) i st)) =
          map endLine (regions st) @ map int (indices_from i is_end (l # ls))"
        using e nb by simp_all
    qed
  qed
qed

lemma apart_starts_ascend:
  assumes "sorted_wrt (\<lambda>a b. endLine a < start b) rs" and "\<forall>r\<in>set rs. start r \<le> endLine r"
  shows "sorted_wrt (<) (map start rs)"
proof -
  have "sorted_wrt (\<lambda>a b. start a < start b) rs"
    using assms by (induction rs) fastforce+
  then show ?thesis by (simp add: sorted_wrt_map)
qed

text \<open>
  Claim C3. When the sentinel lines of a text are, in order, a begin line and an end
  line, \<open>N\<close> times over, the scan returns \<open>N\<close> regions; each has
  \<open>1 \<le> start \<le> end \<le> lineCount\<close>; the \<open>k\<close>-th region belongs to the \<open>k\<close>-th begin
  line and the \<open>k\<close>-th end line (its start is the begin line's zero-based index plus
  one, its end the end line's zero-based index), and the starts ascend strictly: one
  region for each block, none merged.
\<close>

theorem paired_blocks_give_regions:
  assumes "filter (\<lambda>k. k \<noteq> PlainLine) (map kind_of (split_newline code)) =
             concat (replicate N [BeginLine, EndLine])"
  shows "length (parse code) = N \<and>
     (\<forall>r\<in>set (parse code).
        1 \<le> start r \<and> start r \<le> endLine r \<and> endLine r \<le> int (length (split_newline code))) \<and>
     map start (parse code) =
       map (\<lambda>k. int k + 1) (indices_from 0 is_begin (split_newline code)) \<and>
     map endLine (parse code) = map int (indices_from 0 is_end (split_newline code)) \<and>
     sorted_wrt (<) (map start (parse code))"
proof -
  have init: "currentStart initial_state = None" "regions initial_state = []"
    by (simp_all add: initial_state_def)
  from paired_scan [of initial_state "split_newline code" N 0] assms init
  have "length (parse code) = N"
    "map start (parse code) = map (\<lambda>k. int k + 1) (indices_from 0 is_begin (split_newline code))"
    "map endLine (parse code) = map int (indices_from 0 is_end (split_newline code))"
    by (simp_all add: parse_def)
  moreover have "\<forall>r\<in>set (parse code).
        1 \<le> start r \<and> start r \<le> endLine r \<and> endLine r \<le> int (length (split_newline code))"
    using parse_bounds [of _ code] by fastforce
  moreover have "sorted_wrt (<) (map start (parse code))"
    using parse_sorted [of code] parse_bounds [of _ code] by (intro apart_starts_ascend) auto
  ultimately show ?thesis by blast
qed

theorem paired_blocks_give_regions_witness:
  "length (parse (''a'' @ [CHR 0x0A] @
          ''// @editable-begin One - first'' @ [CHR 0x0A] @
          ''b'' @ [CHR 0x0A] @
          ''// @editable-end'' @ [CHR 0x0A] @
          ''// @editable-begin Two - second'' @ [CHR 0x0A] @
          ''c'' @ [CHR 0x0A] @
          ''d'' @ [CHR 0x0A] @
          ''// @editable-end'' @ [CHR 0x0A] @
          ''e'')) = 2 \<and>
   map start (parse (''a'' @ [CHR 0x0A] @
          ''// @editable-begin One - first'' @ [CHR 0x0A] @
          ''b'' @ [CHR 0x0A] @
          ''// @editable-end'' @ [CHR 0x0A] @
          ''// @editable-begin Two - second'' @ [CHR 0x0A] @
          ''c'' @ [CHR 0x0A] @
          ''d'' @ [CHR 0x0A] @
          ''// @editable-end'' @ [CHR 0x0A] @
          ''e'')) = [2, 5] \<and>
   map endLine (parse (''a'' @ [CHR 0x0A] @
          ''// @editable-begin One - first'' @ [CHR 0x0A] @
          ''b'' @ [CHR 0x0A] @
          ''// @editable-end'' @ [CHR 0x0A] @
          ''// @editable-begin Two - second'' @ [CHR 0x0A] @
          ''c'' @ [CHR 0x0A] @
          ''d'' @ [CHR 0x0A] @
          ''// @editable-end'' @ [CHR 0x0A] @
          ''e'')) = [3, 7]"
proof -
  have h: "filter (\<lambda>k. k \<noteq> PlainLine) (map kind_of (split_newline (''a'' @ [CHR 0x0A] @
          ''// @editable-begin One - first'' @ [CHR 0x0A] @
          ''b'' @ [CHR 0x0A] @
          ''// @editable-end'' @ [CHR 0x0A] @
          ''// @editable-begin Two - second'' @ [CHR 0x0A] @
          ''c'' @ [CHR 0x0A] @
          ''d'' @ [CHR 0x0A] @
          ''// @editable-end'' @ [CHR 0x0A] @
          ''e''))) =
      concat (replicate 2 [BeginLine, EndLine])"
    by code_simp
  have b: "indices_from 0 is_begin (split_newline (''a'' @ [CHR 0x0A] @
          ''// @editable-begin One - first'' @ [CHR 0x0A] @
          ''b'' @ [CHR 0x0A] @
          ''// @editable-end'' @ [CHR 0x0A] @
          ''// @editable-begin Two - second'' @ [CHR 0x0A] @
          ''c'' @ [CHR 0x0A] @
          ''d'' @ [CHR 0x0A] @
          ''// @editable-end'' @ [CHR 0x0A] @
          ''e'')) = [1, 4]"
    by code_simp
  have e: "indices_from 0 is_end (split_newline (''a'' @ [CHR 0x0A] @
          ''// @editable-begin One - first'' @ [CHR 0x0A] @
          ''b'' @ [CHR 0x0A] @
          ''// @editable-end'' @ [CHR 0x0A] @
          ''// @editable-begin Two - second'' @ [CHR 0x0A] @
          ''c'' @ [CHR 0x0A] @
          ''d'' @ [CHR 0x0A] @
          ''// @editable-end'' @ [CHR 0x0A] @
          ''e'')) = [3, 7]"
    by code_simp
  from paired_blocks_give_regions [OF h] show ?thesis
    unfolding b e by simp
qed

section \<open>An unterminated begin (claim C6)\<close>

lemma forEach_plain:
  "\<forall>l\<in>set ls. \<not> is_begin l \<and> \<not> is_end l \<Longrightarrow> forEach parse_line ls i st = st"
  by (induction ls arbitrary: i st) (simp_all add: parse_line_plain)

lemma forEach_no_end:
  "\<forall>l\<in>set ls. \<not> is_end l \<Longrightarrow> regions (forEach parse_line ls i st) = regions st"
  by (induction ls arbitrary: i st) (simp_all add: parse_line_not_end)

lemma forEach_begin_same:
  assumes "ls = [] \<or> is_begin (hd ls)" and "regions st = regions st'"
  shows "regions (forEach parse_line ls i st) = regions (forEach parse_line ls i st')"
proof (cases ls)
  case Nil
  with assms show ?thesis by simp
next
  case (Cons b rest)
  with assms have "is_begin b" by simp
  from parse_line_begin_same [OF this assms(2)] Cons show ?thesis by simp
qed

text \<open>
  Claim C6. Let a begin line be followed by no end line before the next begin line or
  the end of the text. Then the scan returns what it returns on the text with that
  line blanked, so every other block keeps its region, and no region starts at that
  begin line; when no end line follows at all, every region returned ends before it.
  The scan is a total function: nothing is raised.
\<close>

theorem unterminated_begin_is_dropped:
  assumes "split_newline code = pre @ b # mid @ post"
    and "is_begin b"
    and "\<forall>l\<in>set mid. \<not> is_begin l \<and> \<not> is_end l"
    and "post = [] \<or> is_begin (hd post)"
    and "split_newline code' = pre @ p # mid @ post"
    and "\<not> is_begin p" and "\<not> is_end p"
  shows "parse code = parse code' \<and>
     (\<forall>r\<in>set (parse code). start r \<noteq> int (length pre) + 1) \<and>
     ((\<forall>l\<in>set post. \<not> is_end l) \<longrightarrow> (\<forall>r\<in>set (parse code). endLine r < int (length pre)))"
proof (intro conjI impI)
  let ?n = "length pre"
  let ?st = "forEach parse_line pre 0 initial_state"
  let ?k = "Suc (?n + length mid)"
  have with_b: "parse code = regions (forEach parse_line post ?k (parse_line ?st b ?n))"
    using assms(1,3) by (simp add: parse_def forEach_append forEach_plain)
  have without: "parse code' = regions (forEach parse_line post ?k ?st)"
    using assms(3,5,6,7) by (simp add: parse_def forEach_append forEach_plain parse_line_plain)
  have "regions (parse_line ?st b ?n) = regions ?st"
    using assms(2) by (simp add: parse_line_begin)
  from forEach_begin_same [OF assms(4) this] with_b without
  show same: "parse code = parse code'" by simp
  show "\<forall>r\<in>set (parse code). start r \<noteq> int (length pre) + 1"
  proof
    fix r assume "r \<in> set (parse code)"
    with same have r: "r \<in> set (parse code')" by simp
    show "start r \<noteq> int (length pre) + 1"
    proof
      assume "start r = int (length pre) + 1"
      with parse_sentinels [OF r] assms(5) have "is_begin p" by simp
      with assms(6) show False by contradiction
    qed
  qed
  assume "\<forall>l\<in>set post. \<not> is_end l"
  with assms(2,3) have "\<forall>l\<in>set (b # mid @ post). \<not> is_end l"
    by (auto dest: not_both)
  then have "regions (forEach parse_line (b # mid @ post) ?n ?st) = regions ?st"
    by (rule forEach_no_end)
  then have eq: "parse code = regions ?st"
    using assms(1) by (simp add: parse_def forEach_append)
  have "region_invariant [] initial_state"
    by (simp add: region_invariant_def initial_state_def)
  from invariant_forEach [OF this, of pre] have "region_invariant pre ?st" by simp
  then show "\<forall>r\<in>set (parse code). endLine r < int (length pre)"
    unfolding eq by (simp add: region_invariant_def)
qed

theorem unterminated_begin_is_dropped_witness:
  "parse (''a'' @ [CHR 0x0A] @
          ''// @editable-begin One - first'' @ [CHR 0x0A] @
          ''b'' @ [CHR 0x0A] @
          ''// @editable-end'' @ [CHR 0x0A] @
          ''// @editable-begin Two - second'' @ [CHR 0x0A] @
          ''c'') =
   parse (''a'' @ [CHR 0x0A] @
          ''// @editable-begin One - first'' @ [CHR 0x0A] @
          ''b'' @ [CHR 0x0A] @
          ''// @editable-end'' @ [CHR 0x0A] @
          '''' @ [CHR 0x0A] @
          ''c'') \<and>
   parse (''a'' @ [CHR 0x0A] @
          ''// @editable-begin One - first'' @ [CHR 0x0A] @
          ''b'' @ [CHR 0x0A] @
          ''// @editable-end'' @ [CHR 0x0A] @
          ''// @editable-begin Two - second'' @ [CHR 0x0A] @
          ''c'') =
     [\<lparr>start = 2, endLine = 3, description = ''first'', title = ''One''\<rparr>]"
proof -
  have h1: "split_newline (''a'' @ [CHR 0x0A] @
          ''// @editable-begin One - first'' @ [CHR 0x0A] @
          ''b'' @ [CHR 0x0A] @
          ''// @editable-end'' @ [CHR 0x0A] @
          ''// @editable-begin Two - second'' @ [CHR 0x0A] @
          ''c'') =
      [''a'', ''// @editable-begin One - first'', ''b'', ''// @editable-end''] @ ''// @editable-begin Two - second'' # [''c''] @ []"
    by code_simp
  have h2: "is_begin ''// @editable-begin Two - second''" by code_simp
  have h3: "\<forall>l\<in>set [''c'']. \<not> is_begin l \<and> \<not> is_end l" by code_simp
  have h4: "([]::string list) = [] \<or> is_begin (hd [])" by simp
  have h5: "split_newline (''a'' @ [CHR 0x0A] @
          ''// @editable-begin One - first'' @ [CHR 0x0A] @
          ''b'' @ [CHR 0x0A] @
          ''// @editable-end'' @ [CHR 0x0A] @
          '''' @ [CHR 0x0A] @
          ''c'') =
      [''a'', ''// @editable-begin One - first'', ''b'', ''// @editable-end''] @ [] # [''c''] @ []"
    by code_simp
  have h6: "\<not> is_begin []" by code_simp
  have h7: "\<not> is_end []" by code_simp
  have p: "parse (''a'' @ [CHR 0x0A] @
          ''// @editable-begin One - first'' @ [CHR 0x0A] @
          ''b'' @ [CHR 0x0A] @
          ''// @editable-end'' @ [CHR 0x0A] @
          '''' @ [CHR 0x0A] @
          ''c'') =
     [\<lparr>start = 2, endLine = 3, description = ''first'', title = ''One''\<rparr>]"
    by code_simp
  from unterminated_begin_is_dropped [OF h1 h2 h3 h4 h5 h6 h7] p show ?thesis by simp
qed


section \<open>Selections (claim C2)\<close>

lemma validated_parse:
  assumes "int (length (split_newline code)) \<le> totalLines"
  shows "validatedRegions totalLines (parse code) = parse code"
proof (rule validatedRegions_inside)
  show "\<forall>r\<in>set (parse code). 1 \<le> start r \<and> start r \<le> endLine r \<and> endLine r \<le> totalLines"
    using parse_bounds [of _ code] assms by fastforce
qed

lemma apart_unique:
  assumes "sorted_wrt (\<lambda>a b. endLine a < start b) rs"
    and "r1 \<in> set rs" "r2 \<in> set rs"
    and "start r1 \<le> n" "n \<le> endLine r1" "start r2 \<le> n" "n \<le> endLine r2"
  shows "r1 = r2"
  using assms by (induction rs) fastforce+

text \<open>
  Claim C2. Let a non-empty selection span the lines \<open>a\<close> to \<open>b\<close>, \<open>a \<le> b\<close>. The key
  handler lets an editing key through exactly when one region of the list it holds has
  \<open>start \<le> a\<close> and \<open>b \<le> end\<close>. When the editor holds the text the regions were parsed
  from, that list is the list of parsed regions. The handler then stops the key when a line of the selection lies in no region, when
  the two ends of the selection lie in two different regions, and when the only region
  covers lines 3 to 5 and the selection lines 4 to 7.
\<close>

theorem selection_guard:
  assumes "int (length (split_newline code)) \<le> totalLines"
    and "\<not> isEmpty sel" and "isEditingKey e"
    and "a = startLineNumber sel" and "b = endLineNumber sel" and "a \<le> b"
  shows
    "(\<not> onKeyDown validated (Some [Some sel]) e \<longleftrightarrow>
        (\<exists>r\<in>set validated. start r \<le> a \<and> b \<le> endLine r)) \<and>
     validatedRegions totalLines (parse code) = parse code \<and>
     (\<not> onKeyDown (validatedRegions totalLines (parse code)) (Some [Some sel]) e \<longleftrightarrow>
        (\<exists>r\<in>set (parse code). start r \<le> a \<and> b \<le> endLine r)) \<and>
     (a \<le> n \<and> n \<le> b \<and> (\<forall>r\<in>set (parse code). n < start r \<or> endLine r < n) \<longrightarrow>
        onKeyDown (validatedRegions totalLines (parse code)) (Some [Some sel]) e) \<and>
     (ra \<in> set (parse code) \<and> rb \<in> set (parse code) \<and> ra \<noteq> rb \<and>
      start ra \<le> a \<and> a \<le> endLine ra \<and> start rb \<le> b \<and> b \<le> endLine rb \<longrightarrow>
        onKeyDown (validatedRegions totalLines (parse code)) (Some [Some sel]) e) \<and>
     (map (\<lambda>r. (start r, endLine r)) (parse code) = [(3, 5)] \<and> a = 4 \<and> b = 7 \<longrightarrow>
        onKeyDown (validatedRegions totalLines (parse code)) (Some [Some sel]) e)"
proof -
  have guard: "\<not> onKeyDown (validatedRegions totalLines (parse code)) (Some [Some sel]) e \<longleftrightarrow>
        (\<exists>r\<in>set (parse code). start r \<le> a \<and> b \<le> endLine r)"
    using assms by (simp add: validated_parse onKeyDown_def isEditAllowed_def isRangeEditable_iff)
  have line: "onKeyDown (validatedRegions totalLines (parse code)) (Some [Some sel]) e"
    if "a \<le> n" "n \<le> b" "\<forall>r\<in>set (parse code). n < start r \<or> endLine r < n"
  proof (rule ccontr)
    assume "\<not> onKeyDown (validatedRegions totalLines (parse code)) (Some [Some sel]) e"
    with guard obtain r where "r \<in> set (parse code)" "start r \<le> a" "b \<le> endLine r" by blast
    with that show False by fastforce
  qed
  have two: "onKeyDown (validatedRegions totalLines (parse code)) (Some [Some sel]) e"
    if "ra \<in> set (parse code)" "rb \<in> set (parse code)" "ra \<noteq> rb"
      "start ra \<le> a" "a \<le> endLine ra" "start rb \<le> b" "b \<le> endLine rb"
  proof (rule ccontr)
    assume "\<not> onKeyDown (validatedRegions totalLines (parse code)) (Some [Some sel]) e"
    with guard obtain r where r: "r \<in> set (parse code)" "start r \<le> a" "b \<le> endLine r" by blast
    have ab: "a \<le> b" by (rule assms(6))
    from r ab that have "r = ra"
      by (intro apart_unique [OF parse_sorted r(1) that(1), of a]) linarith+
    moreover from r ab that have "r = rb"
      by (intro apart_unique [OF parse_sorted r(1) that(2), of b]) linarith+
    ultimately show False using that(3) by simp
  qed
  have ex: "onKeyDown (validatedRegions totalLines (parse code)) (Some [Some sel]) e"
    if "map (\<lambda>r. (start r, endLine r)) (parse code) = [(3, 5)]" "a = 4" "b = 7"
  proof -
    from that(1) obtain r where "parse code = [r]" "start r = 3" "endLine r = 5" by auto
    with that(2,3) guard show ?thesis by auto
  qed
  show ?thesis
  proof (intro conjI impI)
    show "\<not> onKeyDown validated (Some [Some sel]) e \<longleftrightarrow>
        (\<exists>r\<in>set validated. start r \<le> a \<and> b \<le> endLine r)"
      using assms by (simp add: onKeyDown_def isEditAllowed_def isRangeEditable_iff)
    show "validatedRegions totalLines (parse code) = parse code"
      using assms(1) by (rule validated_parse)
    show "\<not> onKeyDown (validatedRegions totalLines (parse code)) (Some [Some sel]) e \<longleftrightarrow>
        (\<exists>r\<in>set (parse code). start r \<le> a \<and> b \<le> endLine r)"
      by (rule guard)
  next
    assume "a \<le> n \<and> n \<le> b \<and> (\<forall>r\<in>set (parse code). n < start r \<or> endLine r < n)"
    then show "onKeyDown (validatedRegions totalLines (parse code)) (Some [Some sel]) e"
      by (intro line) simp_all
  next
    assume "ra \<in> set (parse code) \<and> rb \<in> set (parse code) \<and> ra \<noteq> rb \<and>
      start ra \<le> a \<and> a \<le> endLine ra \<and> start rb \<le> b \<and> b \<le> endLine rb"
    then show "onKeyDown (validatedRegions totalLines (parse code)) (Some [Some sel]) e"
      by (intro two) simp_all
  next
    assume "map (\<lambda>r. (start r, endLine r)) (parse code) = [(3, 5)] \<and> a = 4 \<and> b = 7"
    then show "onKeyDown (validatedRegions totalLines (parse code)) (Some [Some sel]) e"
      by (intro ex) simp_all
  qed
qed

theorem selection_guard_witness:
  "onKeyDown (validatedRegions 8 (parse (''a'' @ [CHR 0x0A] @
          ''b'' @ [CHR 0x0A] @
          ''// @editable-begin Title - Desc'' @ [CHR 0x0A] @
          ''c'' @ [CHR 0x0A] @
          ''d'' @ [CHR 0x0A] @
          ''// @editable-end'' @ [CHR 0x0A] @
          ''e'' @ [CHR 0x0A] @
          ''f'')))
     (Some [Some \<lparr>startLineNumber = 4, startColumn = 1, endLineNumber = 7, endColumn = 3,
        selectionStartLineNumber = 4, selectionStartColumn = 1,
        positionLineNumber = 7, positionColumn = 3\<rparr>])
     \<lparr>keyCode = KeyCode_Backspace, ctrlKey = False, shiftKey = False, altKey = False, metaKey = False\<rparr> \<and>
   \<not> onKeyDown (validatedRegions 8 (parse (''a'' @ [CHR 0x0A] @
          ''b'' @ [CHR 0x0A] @
          ''// @editable-begin Title - Desc'' @ [CHR 0x0A] @
          ''c'' @ [CHR 0x0A] @
          ''d'' @ [CHR 0x0A] @
          ''// @editable-end'' @ [CHR 0x0A] @
          ''e'' @ [CHR 0x0A] @
          ''f'')))
     (Some [Some \<lparr>startLineNumber = 4, startColumn = 1, endLineNumber = 5, endColumn = 3,
        selectionStartLineNumber = 4, selectionStartColumn = 1,
        positionLineNumber = 5, positionColumn = 3\<rparr>])
     \<lparr>keyCode = KeyCode_Backspace, ctrlKey = False, shiftKey = False, altKey = False, metaKey = False\<rparr>"
proof -
  have len: "int (length (split_newline (''a'' @ [CHR 0x0A] @
          ''b'' @ [CHR 0x0A] @
          ''// @editable-begin Title - Desc'' @ [CHR 0x0A] @
          ''c'' @ [CHR 0x0A] @
          ''d'' @ [CHR 0x0A] @
          ''// @editable-end'' @ [CHR 0x0A] @
          ''e'' @ [CHR 0x0A] @
          ''f''))) \<le> 8"
    by code_simp
  have p: "parse (''a'' @ [CHR 0x0A] @
          ''b'' @ [CHR 0x0A] @
          ''// @editable-begin Title - Desc'' @ [CHR 0x0A] @
          ''c'' @ [CHR 0x0A] @
          ''d'' @ [CHR 0x0A] @
          ''// @editable-end'' @ [CHR 0x0A] @
          ''e'' @ [CHR 0x0A] @
          ''f'') =
      [\<lparr>start = 3, endLine = 5, description = ''Desc'', title = ''Title''\<rparr>]"
    by code_simp
  have key: "isEditingKey \<lparr>keyCode = KeyCode_Backspace, ctrlKey = False, shiftKey = False, altKey = False, metaKey = False\<rparr>"
    by (simp add: isEditingKey_def)
  have ne47: "\<not> isEmpty \<lparr>startLineNumber = 4, startColumn = 1, endLineNumber = 7, endColumn = 3,
        selectionStartLineNumber = 4, selectionStartColumn = 1,
        positionLineNumber = 7, positionColumn = 3\<rparr>"
    by (simp add: isEmpty_def)
  have ne45: "\<not> isEmpty \<lparr>startLineNumber = 4, startColumn = 1, endLineNumber = 5, endColumn = 3,
        selectionStartLineNumber = 4, selectionStartColumn = 1,
        positionLineNumber = 5, positionColumn = 3\<rparr>"
    by (simp add: isEmpty_def)
  have blocked: "onKeyDown (validatedRegions 8 (parse (''a'' @ [CHR 0x0A] @
          ''b'' @ [CHR 0x0A] @
          ''// @editable-begin Title - Desc'' @ [CHR 0x0A] @
          ''c'' @ [CHR 0x0A] @
          ''d'' @ [CHR 0x0A] @
          ''// @editable-end'' @ [CHR 0x0A] @
          ''e'' @ [CHR 0x0A] @
          ''f'')))
     (Some [Some \<lparr>startLineNumber = 4, startColumn = 1, endLineNumber = 7, endColumn = 3,
        selectionStartLineNumber = 4, selectionStartColumn = 1,
        positionLineNumber = 7, positionColumn = 3\<rparr>])
     \<lparr>keyCode = KeyCode_Backspace, ctrlKey = False, shiftKey = False, altKey = False, metaKey = False\<rparr>"
    using selection_guard [OF len ne47 key, where a = 4 and b = 7 and n = 0
        and ra = "\<lparr>start = 3, endLine = 5, description = ''Desc'', title = ''Title''\<rparr>"
        and rb = "\<lparr>start = 3, endLine = 5, description = ''Desc'', title = ''Title''\<rparr>"
        and validated = "[]"] p
    by (simp add: validatedRegions_def clamp_region_def)
  have allowed: "\<not> onKeyDown (validatedRegions 8 (parse (''a'' @ [CHR 0x0A] @
          ''b'' @ [CHR 0x0A] @
          ''// @editable-begin Title - Desc'' @ [CHR 0x0A] @
          ''c'' @ [CHR 0x0A] @
          ''d'' @ [CHR 0x0A] @
          ''// @editable-end'' @ [CHR 0x0A] @
          ''e'' @ [CHR 0x0A] @
          ''f'')))
     (Some [Some \<lparr>startLineNumber = 4, startColumn = 1, endLineNumber = 5, endColumn = 3,
        selectionStartLineNumber = 4, selectionStartColumn = 1,
        positionLineNumber = 5, positionColumn = 3\<rparr>])
     \<lparr>keyCode = KeyCode_Backspace, ctrlKey = False, shiftKey = False, altKey = False, metaKey = False\<rparr>"
    using selection_guard [OF len ne45 key, where a = 4 and b = 5 and n = 0
        and ra = "\<lparr>start = 3, endLine = 5, description = ''Desc'', title = ''Title''\<rparr>"
        and rb = "\<lparr>start = 3, endLine = 5, description = ''Desc'', title = ''Title''\<rparr>"
        and validated = "[]"] p
    by (simp add: validatedRegions_def clamp_region_def)
  from blocked allowed show ?thesis by blast
qed

section \<open>Clamping (claim C7)\<close>

lemma clamp_region_ordered:
  "start r \<le> endLine r \<Longrightarrow> start (clamp_region T r) \<le> endLine (clamp_region T r)"
  by (simp add: clamp_region_def min_def max_def)

lemma clamp_inverted_iff:
  "endLine (clamp_region T q) < start (clamp_region T q) \<longleftrightarrow>
     endLine q < start q \<and> endLine q < T \<and> 1 < start q \<and> 1 < T"
proof -
  have "endLine (clamp_region T q) = min (max 1 (endLine q)) T"
    "start (clamp_region T q) = min (max 1 (start q)) T"
    by (simp_all add: clamp_region_def)
  then show ?thesis by (simp add: min_def max_def) linarith
qed

lemma validatedRegions_ordered:
  "\<forall>r\<in>set rs. start r \<le> endLine r \<Longrightarrow> validatedRegions T rs = map (clamp_region T) rs"
  by (induction rs) (simp_all add: validatedRegions_def clamp_region_ordered)

lemma validatedRegions_single:
  "validatedRegions T [r] =
     (if start (clamp_region T r) \<le> endLine (clamp_region T r) then [clamp_region T r] else [])"
  by (simp add: validatedRegions_def)

lemma validatedRegions_middle:
  "validatedRegions T (rs1 @ r # rs2) =
     validatedRegions T rs1 @ validatedRegions T [r] @ validatedRegions T rs2"
  by (simp add: validatedRegions_def)

text \<open>
  Claim C7, as amended. Clamping to a document of \<open>lineCount\<close> lines leaves a list of
  regions that lie inside \<open>[1, lineCount]\<close> (with \<open>1 \<le> start \<le> end\<close>) as it is; a region
  that starts inside the document and ends beyond it keeps its start and has its end cut
  to \<open>lineCount\<close>; a region that lies wholly beyond the document has both ends set to
  \<open>lineCount\<close> and is kept. No region with \<open>1 \<le> start \<le> end\<close>, and so no parsed region,
  is dropped. A region is dropped exactly when it is given with its end before its start,
  the end before \<open>lineCount\<close> and the start after line 1, and no region of the result has
  its start after its end.
\<close>

theorem clamp_to_document:
  "((\<forall>r\<in>set rs. 1 \<le> start r \<and> start r \<le> endLine r \<and> endLine r \<le> lineCount)
      \<longrightarrow> validatedRegions lineCount rs = rs) \<and>
   (1 \<le> start r \<and> start r \<le> lineCount \<and> lineCount < endLine r
      \<longrightarrow> validatedRegions lineCount (rs1 @ r # rs2) =
          validatedRegions lineCount rs1 @ r\<lparr>endLine := lineCount\<rparr> # validatedRegions lineCount rs2) \<and>
   (lineCount < start r \<and> start r \<le> endLine r
      \<longrightarrow> validatedRegions lineCount (rs1 @ r # rs2) =
          validatedRegions lineCount rs1 @ r\<lparr>start := lineCount, endLine := lineCount\<rparr> #
          validatedRegions lineCount rs2) \<and>
   ((\<forall>r\<in>set rs. 1 \<le> start r \<and> start r \<le> endLine r)
      \<longrightarrow> validatedRegions lineCount rs = map (clamp_region lineCount) rs \<and>
          length (validatedRegions lineCount rs) = length rs) \<and>
   length (validatedRegions lineCount (parse code)) = length (parse code) \<and>
   (validatedRegions lineCount (rs1 @ q # rs2) =
      validatedRegions lineCount rs1 @ validatedRegions lineCount rs2
    \<longleftrightarrow> endLine q < start q \<and> endLine q < lineCount \<and> 1 < start q \<and> 1 < lineCount) \<and>
   (\<forall>x\<in>set (validatedRegions lineCount rs). start x \<le> endLine x)"
proof (intro conjI impI)
  assume "\<forall>r\<in>set rs. 1 \<le> start r \<and> start r \<le> endLine r \<and> endLine r \<le> lineCount"
  then show "validatedRegions lineCount rs = rs" by (rule validatedRegions_inside)
next
  assume h: "1 \<le> start r \<and> start r \<le> lineCount \<and> lineCount < endLine r"
  then have "clamp_region lineCount r = r\<lparr>endLine := lineCount\<rparr>"
    by (simp add: clamp_region_def)
  with h have "validatedRegions lineCount [r] = [r\<lparr>endLine := lineCount\<rparr>]"
    by (simp add: validatedRegions_def)
  then show "validatedRegions lineCount (rs1 @ r # rs2) =
          validatedRegions lineCount rs1 @ r\<lparr>endLine := lineCount\<rparr> # validatedRegions lineCount rs2"
    by (simp add: validatedRegions_middle)
next
  assume h: "lineCount < start r \<and> start r \<le> endLine r"
  then have "clamp_region lineCount r = r\<lparr>start := lineCount, endLine := lineCount\<rparr>"
    by (simp add: clamp_region_def min_def max_def)
  then have "validatedRegions lineCount [r] = [r\<lparr>start := lineCount, endLine := lineCount\<rparr>]"
    by (simp add: validatedRegions_single)
  then show "validatedRegions lineCount (rs1 @ r # rs2) =
          validatedRegions lineCount rs1 @ r\<lparr>start := lineCount, endLine := lineCount\<rparr> #
          validatedRegions lineCount rs2"
    by (simp add: validatedRegions_middle)
next
  assume "\<forall>r\<in>set rs. 1 \<le> start r \<and> start r \<le> endLine r"
  then have m: "validatedRegions lineCount rs = map (clamp_region lineCount) rs"
    by (intro validatedRegions_ordered) simp
  then show "validatedRegions lineCount rs = map (clamp_region lineCount) rs" .
  from m show "length (validatedRegions lineCount rs) = length rs" by simp
next
  have "\<forall>r\<in>set (parse code). start r \<le> endLine r"
    using parse_bounds by blast
  then have "validatedRegions lineCount (parse code) = map (clamp_region lineCount) (parse code)"
    by (rule validatedRegions_ordered)
  then show "length (validatedRegions lineCount (parse code)) = length (parse code)" by simp
next
  have "validatedRegions lineCount (rs1 @ q # rs2) =
             validatedRegions lineCount rs1 @ validatedRegions lineCount rs2
      \<longleftrightarrow> validatedRegions lineCount [q] = []"
    by (simp add: validatedRegions_middle)
  also have "\<dots> \<longleftrightarrow> endLine (clamp_region lineCount q) < start (clamp_region lineCount q)"
    by (simp add: validatedRegions_single not_le)
  also have "\<dots> \<longleftrightarrow>
      endLine q < start q \<and> endLine q < lineCount \<and> 1 < start q \<and> 1 < lineCount"
    by (rule clamp_inverted_iff)
  finally show "validatedRegions lineCount (rs1 @ q # rs2) =
      validatedRegions lineCount rs1 @ validatedRegions lineCount rs2
    \<longleftrightarrow> endLine q < start q \<and> endLine q < lineCount \<and> 1 < start q \<and> 1 < lineCount" .
next
  show "\<forall>x\<in>set (validatedRegions lineCount rs). start x \<le> endLine x"
    by (simp add: validatedRegions_def)
qed

theorem clamp_to_document_witness:
  "validatedRegions 10 [\<lparr>start = 3, endLine = 5, description = ''d'', title = ''t''\<rparr>] =
     [\<lparr>start = 3, endLine = 5, description = ''d'', title = ''t''\<rparr>] \<and>
   validatedRegions 4 [\<lparr>start = 3, endLine = 5, description = ''d'', title = ''t''\<rparr>] =
     [\<lparr>start = 3, endLine = 4, description = ''d'', title = ''t''\<rparr>] \<and>
   validatedRegions 4 [\<lparr>start = 6, endLine = 9, description = ''d'', title = ''t''\<rparr>] =
     [\<lparr>start = 4, endLine = 4, description = ''d'', title = ''t''\<rparr>] \<and>
   length (validatedRegions 4
     [\<lparr>start = 3, endLine = 5, description = ''d'', title = ''t''\<rparr>,
      \<lparr>start = 6, endLine = 9, description = ''d'', title = ''t''\<rparr>]) = 2 \<and>
   validatedRegions 10 [\<lparr>start = 5, endLine = 3, description = ''d'', title = ''t''\<rparr>] = []"
proof -
  have h1: "\<forall>r\<in>set [\<lparr>start = 3, endLine = 5, description = ''d'', title = ''t''\<rparr>].
      1 \<le> start r \<and> start r \<le> endLine r \<and> endLine r \<le> 10"
    by simp
  have h2: "1 \<le> start \<lparr>start = 3, endLine = 5, description = ''d'', title = ''t''\<rparr> \<and>
      start \<lparr>start = 3, endLine = 5, description = ''d'', title = ''t''\<rparr> \<le> 4 \<and>
      4 < endLine \<lparr>start = 3, endLine = 5, description = ''d'', title = ''t''\<rparr>"
    by simp
  have h3: "4 < start \<lparr>start = 6, endLine = 9, description = ''d'', title = ''t''\<rparr> \<and>
      start \<lparr>start = 6, endLine = 9, description = ''d'', title = ''t''\<rparr> \<le>
      endLine \<lparr>start = 6, endLine = 9, description = ''d'', title = ''t''\<rparr>"
    by simp
  have h4: "\<forall>r\<in>set [\<lparr>start = 3, endLine = 5, description = ''d'', title = ''t''\<rparr>,
                   \<lparr>start = 6, endLine = 9, description = ''d'', title = ''t''\<rparr>].
      1 \<le> start r \<and> start r \<le> endLine r"
    by simp
  have h5: "endLine \<lparr>start = 5, endLine = 3, description = ''d'', title = ''t''\<rparr> <
        start \<lparr>start = 5, endLine = 3, description = ''d'', title = ''t''\<rparr> \<and>
      endLine \<lparr>start = 5, endLine = 3, description = ''d'', title = ''t''\<rparr> < 10 \<and>
      1 < start \<lparr>start = 5, endLine = 3, description = ''d'', title = ''t''\<rparr> \<and> (1::int) < 10"
    by simp
  have e: "validatedRegions n [] = []" for n
    by (simp add: validatedRegions_def)
  have "validatedRegions 10 [\<lparr>start = 3, endLine = 5, description = ''d'', title = ''t''\<rparr>] =
     [\<lparr>start = 3, endLine = 5, description = ''d'', title = ''t''\<rparr>]"
    by (rule clamp_to_document [THEN conjunct1, THEN mp, OF h1])
  moreover have "validatedRegions 4 ([] @ \<lparr>start = 3, endLine = 5, description = ''d'', title = ''t''\<rparr> # []) =
     validatedRegions 4 [] @
     \<lparr>start = 3, endLine = 5, description = ''d'', title = ''t''\<rparr>\<lparr>endLine := 4\<rparr> # validatedRegions 4 []"
    by (rule clamp_to_document [THEN conjunct2, THEN conjunct1, THEN mp, OF h2])
  moreover have "validatedRegions 4 ([] @ \<lparr>start = 6, endLine = 9, description = ''d'', title = ''t''\<rparr> # []) =
     validatedRegions 4 [] @
     \<lparr>start = 6, endLine = 9, description = ''d'', title = ''t''\<rparr>\<lparr>start := 4, endLine := 4\<rparr> # validatedRegions 4 []"
    by (rule clamp_to_document
        [THEN conjunct2, THEN conjunct2, THEN conjunct1, THEN mp, OF h3])
  moreover have "length (validatedRegions 4
     [\<lparr>start = 3, endLine = 5, description = ''d'', title = ''t''\<rparr>,
      \<lparr>start = 6, endLine = 9, description = ''d'', title = ''t''\<rparr>]) =
    length [\<lparr>start = 3, endLine = 5, description = ''d'', title = ''t''\<rparr>,
            \<lparr>start = 6, endLine = 9, description = ''d'', title = ''t''\<rparr>]"
    by (rule clamp_to_document
        [THEN conjunct2, THEN conjunct2, THEN conjunct2, THEN conjunct1, THEN mp, OF h4,
         THEN conjunct2])
  moreover have "validatedRegions 10 ([] @ \<lparr>start = 5, endLine = 3, description = ''d'', title = ''t''\<rparr> # []) =
      validatedRegions 10 [] @ validatedRegions 10 []"
    by (rule clamp_to_document
        [THEN conjunct2, THEN conjunct2, THEN conjunct2, THEN conjunct2, THEN conjunct2,
         THEN conjunct1, THEN iffD2, OF h5])
  ultimately show ?thesis by (simp add: e)
qed

text \<open>
  A region of lines 6 to 9 in a document of 4 lines: its end cut to the document lies
  before its start, yet it is kept, as line 4.
\<close>

theorem region_beyond_document_is_kept:
  "(1::int) \<le> 6 \<and> (6::int) \<le> 9 \<and> (1::int) \<le> 4 \<and> min 9 4 < (6::int) \<and>
   validatedRegions 4 [\<lparr>start = 6, endLine = 9, description = ''d'', title = ''t''\<rparr>] =
     [\<lparr>start = 4, endLine = 4, description = ''d'', title = ''t''\<rparr>]"
  by (simp add: validatedRegions_def clamp_region_def)

end
